theory Spec2Isabelle
  imports Main "HOL-Library.Monad_Syntax"
begin

section \<open>Strings\<close>

text \<open>
  A script string is a sequence of code units; it is modelled as a \<^typ>\<open>string\<close>, one
  \<^typ>\<open>char\<close> for each code unit. \<open>s[i]\<close> is \<open>s ! i\<close> below the length and
  \<open>undefined\<close> (here \<open>None\<close>) from the length on; \<open>s.substring(a, b)\<close> with
  \<open>a \<le> b\<close> is \<open>take (b - a) (drop a s)\<close>.
\<close>

definition charAt :: "string \<Rightarrow> nat \<Rightarrow> char option" where
  "charAt s i = (if i < length s then Some (s ! i) else None)"

definition substring :: "string \<Rightarrow> nat \<Rightarrow> nat \<Rightarrow> string" where
  "substring s a b = (let lo = min (min a b) (length s); hi = min (max a b) (length s)
                      in take (hi - lo) (drop lo s))"

section \<open>Escaping (10.2.1.1 and 10.2.1.2)\<close>

text \<open>The first loop of \<open>escapeElementValue\<close>: the index of the first code unit to escape.\<close>

function escapeElementValue_scan :: "string \<Rightarrow> nat \<Rightarrow> nat" where
  "escapeElementValue_scan s i =
     (if i < length s \<and> s ! i \<noteq> CHR ''&'' \<and> s ! i \<noteq> CHR ''<'' \<and> s ! i \<noteq> CHR ''>''
      then escapeElementValue_scan s (i + 1) else i)"
  by pat_completeness auto
termination
  by (relation "measure (\<lambda>(s, i). length s - i)") auto

text \<open>The second loop: \<open>ch = s[i++]\<close>, then the \<open>switch\<close> appends to \<open>buf\<close>.\<close>

function escapeElementValue_loop :: "string \<Rightarrow> nat \<Rightarrow> string \<Rightarrow> string" where
  "escapeElementValue_loop s i buf =
     (if i < length s then
        (let ch = s ! i in
         escapeElementValue_loop s (i + 1)
           (if ch = CHR ''&'' then buf @ ''&amp;''
            else if ch = CHR ''<'' then buf @ ''&lt;''
            else if ch = CHR ''>'' then buf @ ''&gt;''
            else buf @ [ch]))
      else buf)"
  by pat_completeness auto
termination
  by (relation "measure (\<lambda>(s, i, buf). length s - i)") auto

declare escapeElementValue_scan.simps [simp del] escapeElementValue_loop.simps [simp del]

definition escapeElementValue :: "string \<Rightarrow> string" where
  "escapeElementValue s =
     (let i = escapeElementValue_scan s 0 in
      if i \<ge> length s then s
      else escapeElementValue_loop s i (substring s 0 i))"

function escapeAttributeValue_scan :: "string \<Rightarrow> nat \<Rightarrow> nat" where
  "escapeAttributeValue_scan s i =
     (if i < length s \<and> s ! i \<noteq> CHR ''&'' \<and> s ! i \<noteq> CHR ''<'' \<and>
         s ! i \<noteq> CHR 0x22 \<and> s ! i \<noteq> CHR 0x0A \<and> s ! i \<noteq> CHR 0x0D \<and> s ! i \<noteq> CHR 0x09
      then escapeAttributeValue_scan s (i + 1) else i)"
  by pat_completeness auto
termination
  by (relation "measure (\<lambda>(s, i). length s - i)") auto

function escapeAttributeValue_loop :: "string \<Rightarrow> nat \<Rightarrow> string \<Rightarrow> string" where
  "escapeAttributeValue_loop s i buf =
     (if i < length s then
        (let ch = s ! i in
         escapeAttributeValue_loop s (i + 1)
           (if ch = CHR ''&'' then buf @ ''&amp;''
            else if ch = CHR ''<'' then buf @ ''&lt;''
            else if ch = CHR 0x22 then buf @ ''&quot;''
            else if ch = CHR 0x0A then buf @ ''&#xA;''
            else if ch = CHR 0x0D then buf @ ''&#xD;''
            else if ch = CHR 0x09 then buf @ ''&#x9;''
            else buf @ [ch]))
      else buf)"
  by pat_completeness auto
termination
  by (relation "measure (\<lambda>(s, i, buf). length s - i)") auto

declare escapeAttributeValue_scan.simps [simp del] escapeAttributeValue_loop.simps [simp del]

definition escapeAttributeValue :: "string \<Rightarrow> string" where
  "escapeAttributeValue s =
     (let i = escapeAttributeValue_scan s 0 in
      if i \<ge> length s then s
      else escapeAttributeValue_loop s i (substring s 0 i))"

text \<open>
  The specification's wording, written out for comparison with the code: each code unit is
  replaced on its own, the listed ones by their entity and every other one by itself.
\<close>

definition spec_escapeElementChar :: "char \<Rightarrow> string" where
  "spec_escapeElementChar ch =
     (if ch = CHR ''&'' then ''&amp;'' else if ch = CHR ''<'' then ''&lt;''
      else if ch = CHR ''>'' then ''&gt;'' else [ch])"

definition spec_escapeAttributeChar :: "char \<Rightarrow> string" where
  "spec_escapeAttributeChar ch =
     (if ch = CHR ''&'' then ''&amp;'' else if ch = CHR ''<'' then ''&lt;''
      else if ch = CHR 0x22 then ''&quot;'' else if ch = CHR 0x0A then ''&#xA;''
      else if ch = CHR 0x0D then ''&#xD;'' else if ch = CHR 0x09 then ''&#x9;'' else [ch])"


section \<open>Errors\<close>

text \<open>
  Every way in which an operation can fail is a value: the typed errors that the engine
  raises through \<open>Runtime.throwError\<close>, the strings that it throws directly, and the
  host's own \<open>TypeError\<close> when a property of \<open>undefined\<close> or \<open>null\<close> is read.
  \<open>Unmodelled\<close> marks the few inputs on which the code does something that the model has
  no value for, and \<open>OutOfFuel\<close> a computation that was cut off or that never ends.
\<close>

datatype error =
    JSTypeError
  | ThrownString string
  | ConvertNullToObjectError
  | ConvertUndefinedToObjectError
  | XMLMarkupMustBeWellFormed
  | XMLOnlyWorksWithOneItemLists string
  | XMLNamespaceWithPrefixAndNoURI string
  | CheckTypeFailedError
  | NotImplemented string
  | Unmodelled string
  | OutOfFuel

definition bindE :: "error + 'a \<Rightarrow> ('a \<Rightarrow> error + 'b) \<Rightarrow> error + 'b" where
  "bindE m f = (case m of Inl e \<Rightarrow> Inl e | Inr x \<Rightarrow> f x)"

text \<open>Running a list of computations in order; the first failure ends it.\<close>

fun sequenceE :: "(error + 'a) list \<Rightarrow> error + 'a list" where
  "sequenceE [] = Inr []"
| "sequenceE (m # ms) =
     (case m of Inl e \<Rightarrow> Inl e
      | Inr x \<Rightarrow> (case sequenceE ms of Inl e \<Rightarrow> Inl e | Inr xs \<Rightarrow> Inr (x # xs)))"

section \<open>Global settings\<close>

record settings =
  ignoreComments :: bool
  ignoreProcessingInstructions :: bool
  ignoreWhitespace :: bool
  prettyPrinting :: bool
  prettyIndent :: int
  defaultNamespace :: string

text \<open>The initial values of the static fields: \<open>_flags = ALL\<close>, \<open>_prettyIndent = 2\<close>.\<close>

definition initialSettings :: settings where
  "initialSettings = \<lparr>ignoreComments = True, ignoreProcessingInstructions = True,
     ignoreWhitespace = True, prettyPrinting = True, prettyIndent = 2, defaultNamespace = ''''\<rparr>"

text \<open>\<open>x | 0\<close>: the number is reduced to a signed 32-bit integer.\<close>

definition toInt32 :: "int \<Rightarrow> int" where
  "toInt32 x = (x + 2147483648) mod 4294967296 - 2147483648"

section \<open>Numbers as strings\<close>

text \<open>\<open>'_ns' + i\<close> appends the decimal digits of the positive integer \<open>i\<close>.\<close>

definition digit_char :: "nat \<Rightarrow> char" where
  "digit_char d = ''0123456789'' ! d"

fun decimal :: "nat \<Rightarrow> string" where
  "decimal n = (if n < 10 then [digit_char n] else decimal (n div 10) @ [digit_char (n mod 10)])"

declare decimal.simps [simp del]

section \<open>Namespaces and qualified names\<close>

text \<open>A namespace object; \<open>prefix = None\<close> is the \<open>undefined\<close> (unresolved) prefix.\<close>

record Namespace =
  prefix :: "string option"
  uri :: string

text \<open>
  \<open>isXMLName(v)\<close> answers whether \<open>new ASQName(v)\<close> completes. For a string or \<open>undefined\<close>
  the constructor reads no property of \<open>v\<close> and throws nothing, so the answer is \<open>true\<close>
  (the scan for a valid lexeme is a FIXME in the source).
\<close>

definition isXMLName :: "string option \<Rightarrow> bool" where
  "isXMLName v = True"

text \<open>
  \<open>new ASNamespace(prefixValue, uriValue)\<close> (13.2.2, step 4) for a string \<open>uriValue\<close> and a
  \<open>prefixValue\<close> that is a string or \<open>undefined\<close>.
\<close>

definition new_ASNamespace :: "string option \<Rightarrow> string \<Rightarrow> error + Namespace" where
  "new_ASNamespace prefixValue uriValue =
     (if uriValue = '''' then
        (case prefixValue of
           None \<Rightarrow> Inr \<lparr>prefix = Some '''', uri = uriValue\<rparr>
         | Some p \<Rightarrow> if p = '''' then Inr \<lparr>prefix = Some '''', uri = uriValue\<rparr>
                     else Inl (XMLNamespaceWithPrefixAndNoURI p))
      else if prefixValue = None then Inr \<lparr>prefix = None, uri = uriValue\<rparr>
      else if isXMLName prefixValue = False then Inr \<lparr>prefix = None, uri = uriValue\<rparr>
      else Inr \<lparr>prefix = prefixValue, uri = uriValue\<rparr>)"

definition getDefaultNamespace :: "settings \<Rightarrow> error + Namespace" where
  "getDefaultNamespace st = new_ASNamespace (Some '''') (defaultNamespace st)"

datatype ASQNameFlags = ATTR_NAME | ELEM_NAME | ANY_NAME | ANY_NAMESPACE

text \<open>
  A qualified name object with the multiname it wraps: its one namespace (\<open>None\<close> is
  \<open>null\<close>), its local name and the flags fixed by the constructor.
\<close>

record ASQName =
  namespace :: "Namespace option"
  localName :: string
  flags :: "ASQNameFlags set"

definition ASQName_uri :: "ASQName \<Rightarrow> string option" where
  "ASQName_uri q = (case namespace q of None \<Rightarrow> None | Some n \<Rightarrow> Some (uri n))"

text \<open>
  \<open>new ASQName(namespace, name, isAttribute)\<close> (13.3.2) as \<open>init\<close> calls it: \<open>namespace\<close> is
  a namespace object or \<open>undefined\<close> (\<open>None\<close>), \<open>name\<close> a string.
\<close>

definition new_ASQName :: "settings \<Rightarrow> Namespace option \<Rightarrow> string \<Rightarrow> bool \<Rightarrow> error + ASQName" where
  "new_ASQName st namespace' name' isAttribute =
     bindE (case namespace' of
              None \<Rightarrow> if name' = ''*'' then Inr None
                      else bindE (getDefaultNamespace st) (\<lambda>d. Inr (Some d))
            | Some n \<Rightarrow> Inr (Some n))
       (\<lambda>ns. Inr \<lparr>namespace = ns, localName = name',
                  flags = {if isAttribute then ATTR_NAME else ELEM_NAME}
                          \<union> (if name' = ''*'' then {ANY_NAME} else {})
                          \<union> (if ns = None then {ANY_NAMESPACE} else {})\<rparr>)"

text \<open>\<open>ASQName.equals\<close> against another qualified name: same uri, same local name.\<close>

definition ASQName_equals :: "ASQName \<Rightarrow> ASQName \<Rightarrow> bool" where
  "ASQName_equals this other =
     (ASQName_uri other = ASQName_uri this \<and> localName other = localName this)"

text \<open>
  \<open>getNamespace(inScopeNamespaces)\<close> (13.3.5.4): the last namespace of the list with the
  name's uri, or else a new namespace built from the name's own prefix and uri.
\<close>

fun getNamespace_loop :: "string \<Rightarrow> Namespace list \<Rightarrow> Namespace option \<Rightarrow> Namespace option" where
  "getNamespace_loop u [] ns = ns"
| "getNamespace_loop u (n # rest) ns = getNamespace_loop u rest (if u = uri n then Some n else ns)"

definition getNamespace :: "ASQName \<Rightarrow> Namespace list \<Rightarrow> error + Namespace" where
  "getNamespace this inScopeNamespaces' =
     (case namespace this of
        None \<Rightarrow> Inl (ThrownString ''TypeError in QName.prototype.getNamespace()'')
      | Some own \<Rightarrow>
          (case getNamespace_loop (uri own) inScopeNamespaces' None of
             Some ns \<Rightarrow> Inr ns
           | None \<Rightarrow> new_ASNamespace (prefix own) (uri own)))"

section \<open>The node tree\<close>

datatype ASXMLKind = Unknown | Element | Attribute | Text | Comment | ProcessingInstruction

text \<open>
  The tree that a node denotes: its kind, its name (\<open>None\<close> when \<open>_name\<close> is \<open>undefined\<close> or
  \<open>null\<close>), its value, its in-scope namespaces, its attributes and its children. An array
  that the node does not have is the empty list. The algorithms that only read a tree are
  defined on this type; those that compare or change object identities work on the object
  store further down.
\<close>

datatype xml = XML (xkind: ASXMLKind) (xname: "ASQName option") (xvalue: string)
                   (xinScopeNamespaces: "Namespace list") (xattributes: "xml list")
                   (xchildren: "xml list")

section \<open>Serialization helpers\<close>

definition isWhitespace :: "string \<Rightarrow> int \<Rightarrow> bool" where
  "isWhitespace s index =
     (if 0 \<le> index \<and> index < int (length s) then
        (let ch = s ! nat index in ch = CHR '' '' \<or> ch = CHR 0x0A \<or> ch = CHR 0x0D \<or> ch = CHR 0x09)
      else False)"

function trimWhitespaces_i :: "string \<Rightarrow> nat \<Rightarrow> nat" where
  "trimWhitespaces_i s i =
     (if i < length s \<and> isWhitespace s (int i) then trimWhitespaces_i s (i + 1) else i)"
  by pat_completeness auto
termination
  by (relation "measure (\<lambda>(s, i). length s - i)") auto

function trimWhitespaces_j :: "string \<Rightarrow> int \<Rightarrow> int" where
  "trimWhitespaces_j s j = (if isWhitespace s j then trimWhitespaces_j s (j - 1) else j)"
  by pat_completeness auto
termination
  by (relation "measure (\<lambda>(s, j). nat (j + 1))") (auto simp: isWhitespace_def split: if_splits)

declare trimWhitespaces_i.simps [simp del] trimWhitespaces_j.simps [simp del]

definition trimWhitespaces :: "string \<Rightarrow> string" where
  "trimWhitespaces s =
     (let i = trimWhitespaces_i s 0 in
      if i \<ge> length s then ''''
      else (let j = trimWhitespaces_j s (int (length s) - 1) in
            if i = 0 \<and> j = int (length s) - 1 then s else substring s i (nat (j + 1))))"

definition getIndentString :: "int \<Rightarrow> string" where
  "getIndentString indent = (if indent > 0 then replicate (nat indent) CHR '' '' else '''')"

partial_function (option) generateUniquePrefix_loop :: "Namespace list \<Rightarrow> nat \<Rightarrow> string option" where
  "generateUniquePrefix_loop namespaces i =
     (let newPrefix = ''_ns'' @ decimal i in
      if \<not> list_ex (\<lambda>ns. prefix ns = Some newPrefix) namespaces then Some newPrefix
      else generateUniquePrefix_loop namespaces (i + 1))"

declare generateUniquePrefix_loop.simps [code]

text \<open>\<open>None\<close> would be a loop that never ends.\<close>

definition generateUniquePrefix :: "Namespace list \<Rightarrow> string option" where
  "generateUniquePrefix namespaces = generateUniquePrefix_loop namespaces 1"

section \<open>ToXMLString (10.2.1)\<close>

text \<open>
  Step 10: the in-scope namespaces of the element that no ancestor declares with the same
  uri and prefix, each rebuilt by the namespace constructor.
\<close>

definition newDeclarations :: "Namespace list \<Rightarrow> Namespace list \<Rightarrow> error + Namespace list" where
  "newDeclarations inScope ancestorNamespaces =
     sequenceE (map (\<lambda>ns. new_ASNamespace (prefix ns) (uri ns))
       (filter (\<lambda>ns. list_all (\<lambda>ans. uri ans \<noteq> uri ns \<or> prefix ans \<noteq> prefix ns) ancestorNamespaces)
          inScope))"

text \<open>
  Step 11 for one name: when the namespace found for it has no prefix, a fresh prefix is
  generated and a namespace with it is pushed to both \<open>namespaceDeclarations\<close> and
  \<open>currentNamespaces\<close>. The result is the namespace found and the two acc.
\<close>

definition declareName ::
  "ASQName option \<Rightarrow> Namespace list \<times> Namespace list \<Rightarrow> error + (Namespace \<times> Namespace list \<times> Namespace list)" where
  "declareName name' acc =
     (case acc of (namespaceDeclarations, currentNamespaces) \<Rightarrow>
      (case name' of
         None \<Rightarrow> Inl JSTypeError
       | Some q \<Rightarrow>
           bindE (getNamespace q currentNamespaces) (\<lambda>namespace'.
             if prefix namespace' = None then
               (case generateUniquePrefix currentNamespaces of
                  None \<Rightarrow> Inl OutOfFuel
                | Some newPrefix \<Rightarrow>
                    bindE (new_ASNamespace (Some newPrefix) (uri namespace')) (\<lambda>ns2.
                      Inr (namespace', namespaceDeclarations @ [ns2], currentNamespaces @ [ns2])))
             else Inr (namespace', namespaceDeclarations, currentNamespaces))))"

fun declareAttributes ::
  "xml list \<Rightarrow> Namespace list \<times> Namespace list \<Rightarrow> error + (Namespace list \<times> Namespace list)" where
  "declareAttributes [] acc = Inr acc"
| "declareAttributes (attr # rest) acc =
     bindE (declareName (xname attr) acc) (\<lambda>(namespace', decls, current).
       declareAttributes rest (decls, current))"

definition prefixed :: "Namespace \<Rightarrow> bool" where
  "prefixed ns = (case prefix ns of None \<Rightarrow> False | Some p \<Rightarrow> p \<noteq> '''')"

definition declarationString :: "Namespace \<Rightarrow> string" where
  "declarationString ns =
     '' '' @ (if prefixed ns then ''xmlns:'' @ the (prefix ns) else ''xmlns'')
       @ [CHR ''='', CHR 0x22] @ escapeAttributeValue (uri ns) @ [CHR 0x22]"

definition attributeString :: "Namespace list \<Rightarrow> xml \<Rightarrow> error + string" where
  "attributeString ancestorNamespaces attr =
     (case xname attr of
        None \<Rightarrow> Inl JSTypeError
      | Some q \<Rightarrow>
          bindE (getNamespace q ancestorNamespaces) (\<lambda>ns.
            Inr ('' '' @ (if prefixed ns then the (prefix ns) @ '':'' @ localName q else localName q)
                   @ [CHR ''='', CHR 0x22] @ escapeAttributeValue (xvalue attr) @ [CHR 0x22])))"

text \<open>
  Steps 10 to 16: the start of the tag up to, and without, its closing \<open>/>\<close> or \<open>>\<close>,
  with the element's printed name and the namespaces that its children see.
\<close>

definition openTag ::
  "xml \<Rightarrow> Namespace list \<Rightarrow> string \<Rightarrow> error + (string \<times> string \<times> Namespace list)" where
  "openTag node ancestorNamespaces s =
     bindE (newDeclarations (xinScopeNamespaces node) ancestorNamespaces) (\<lambda>decls0.
     bindE (declareName (xname node) (decls0, ancestorNamespaces @ decls0)) (\<lambda>(namespace', decls1, current1).
     (case xname node of
        None \<Rightarrow> Inl JSTypeError
      | Some q \<Rightarrow>
          (let elementName = (if prefixed namespace' then the (prefix namespace') @ '':'' else '''')
                               @ localName q in
           bindE (declareAttributes (xattributes node) (decls1, current1)) (\<lambda>(decls2, current2).
           bindE (sequenceE (map (attributeString ancestorNamespaces) (xattributes node))) (\<lambda>attrs.
             Inr (s @ ''<'' @ elementName @ concat (map declarationString decls2) @ concat attrs,
                  elementName, current2)))))))"

fun toXMLString :: "settings \<Rightarrow> xml \<Rightarrow> Namespace list \<Rightarrow> int \<Rightarrow> error + string" where
  "toXMLString st (XML kind' name' value' inScope attrs kids) ancestorNamespaces indentLevel0 =
     (let indentLevel = toInt32 indentLevel0;
          s = (if prettyPrinting st then getIndentString indentLevel else '''') in
      if kind' = Text then
        Inr (if prettyPrinting st then s @ escapeElementValue (trimWhitespaces value')
             else escapeElementValue value')
      else if kind' = Attribute then Inr (s @ escapeAttributeValue value')
      else if kind' = Comment then Inr (s @ ''<!--'' @ value' @ ''-->'')
      else if kind' = ProcessingInstruction then
        (case name' of
           None \<Rightarrow> Inl JSTypeError
         | Some q \<Rightarrow> Inr (s @ ''<?'' @ localName q @ '' '' @ value' @ ''?>''))
      else
        (case openTag (XML kind' name' value' inScope attrs kids) ancestorNamespaces s of
           Inl e \<Rightarrow> Inl e
         | Inr (s1, elementName, currentNamespaces) \<Rightarrow>
             if length kids = 0 then Inr (s1 @ ''/>'')
             else
               (let indentChildren = (length kids > 1 \<or> (length kids = 1 \<and> xkind (kids ! 0) \<noteq> Text));
                    nextIndentLevel = (if prettyPrinting st \<and> indentChildren
                                       then indentLevel + prettyIndent st else 0) in
                case sequenceE (map (\<lambda>childNode. toXMLString st childNode currentNamespaces nextIndentLevel) kids) of
                  Inl e \<Rightarrow> Inl e
                | Inr strs \<Rightarrow>
                    Inr (s1 @ ''>''
                         @ concat (map (\<lambda>child. (if prettyPrinting st \<and> indentChildren then [CHR 0x0A] else '''') @ child) strs)
                         @ (if prettyPrinting st \<and> indentChildren then [CHR 0x0A] @ getIndentString indentLevel else '''')
                         @ ''</'' @ elementName @ ''>''))))"


section \<open>ToString, content tests and equality on trees\<close>

definition hasComplexContent :: "xml \<Rightarrow> bool" where
  "hasComplexContent this =
     (if xkind this = Attribute \<or> xkind this = Comment \<or>
         xkind this = ProcessingInstruction \<or> xkind this = Text then False
      else list_ex (\<lambda>child. xkind child = Element) (xchildren this))"

definition hasSimpleContent :: "xml \<Rightarrow> bool" where
  "hasSimpleContent this =
     (if xkind this = Comment \<or> xkind this = ProcessingInstruction then False
      else if xkind this \<noteq> Element then True
      else list_all (\<lambda>child. xkind child \<noteq> Element) (xchildren this))"

text \<open>
  The function \<open>toString\<close> (10.1) on a node: the value of a Text or Attribute node; for a
  node with simple content the concatenation over its children other than comments and
  processing instructions; else the node's \<open>toXMLString\<close>.
\<close>

fun toString :: "settings \<Rightarrow> xml \<Rightarrow> error + string" where
  "toString st (XML kind' name' value' inScope attrs kids) =
     (if kind' = Text \<or> kind' = Attribute then Inr value'
      else if hasSimpleContent (XML kind' name' value' inScope attrs kids) then
        (case sequenceE (map (\<lambda>child. toString st child)
                 (filter (\<lambda>child. \<not> (xkind child = Comment \<or> xkind child = ProcessingInstruction)) kids)) of
           Inl e \<Rightarrow> Inl e
         | Inr strs \<Rightarrow> Inr (concat strs))
      else toXMLString st (XML kind' name' value' inScope attrs kids) [] 0)"

text \<open>The method \<open>ASXML.toString\<close> of a node that is a real instance.\<close>

definition ASXML_toString :: "settings \<Rightarrow> xml \<Rightarrow> error + string" where
  "ASXML_toString st this =
     (if hasComplexContent this then toXMLString st this [] 0 else toString st this)"

text \<open>
  Step 8 of \<open>_deepEquals\<close> for one attribute of \<open>this\<close>: the attributes of the other node
  are tried in order until one has an equal name and the same value. Reading the name of
  an attribute that has none is a host error.
\<close>

fun attributeFound :: "xml \<Rightarrow> xml list \<Rightarrow> error + bool" where
  "attributeFound attribute [] = Inr False"
| "attributeFound attribute (otherAttribute # rest) =
     (case xname otherAttribute of
        None \<Rightarrow> Inl JSTypeError
      | Some oq \<Rightarrow>
          if (case xname attribute of None \<Rightarrow> False | Some q \<Rightarrow> ASQName_equals oq q)
             \<and> xvalue otherAttribute = xvalue attribute
          then Inr True
          else attributeFound attribute rest)"

fun attributesFound :: "xml list \<Rightarrow> xml list \<Rightarrow> error + bool" where
  "attributesFound [] otherAttributes = Inr True"
| "attributesFound (attribute # rest) otherAttributes =
     (case attributeFound attribute otherAttributes of
        Inl e \<Rightarrow> Inl e
      | Inr found \<Rightarrow> if found then attributesFound rest otherAttributes else Inr False)"

text \<open>
  \<open>ASXML.equals\<close> (11.5.1) and \<open>_deepEquals\<close> (9.1.1.9) between two nodes. The children are
  compared pairwise by \<open>equals\<close>, after their number was found to be the same.
\<close>

fun equals :: "settings \<Rightarrow> xml \<Rightarrow> xml \<Rightarrow> error + bool"
  and deepEquals :: "settings \<Rightarrow> xml \<Rightarrow> xml \<Rightarrow> error + bool"
  and equalsChildren :: "settings \<Rightarrow> xml list \<Rightarrow> xml list \<Rightarrow> error + bool" where
  "equals st (XML k n v ins as cs) other =
     (if ((k = Text \<or> k = Attribute) \<and> hasSimpleContent other) \<or>
         ((xkind other = Text \<or> xkind other = Attribute) \<and> hasSimpleContent (XML k n v ins as cs))
      then
        (case ASXML_toString st (XML k n v ins as cs) of
           Inl e \<Rightarrow> Inl e
         | Inr s1 \<Rightarrow> (case ASXML_toString st other of Inl e \<Rightarrow> Inl e | Inr s2 \<Rightarrow> Inr (s1 = s2)))
      else deepEquals st (XML k n v ins as cs) other)"
| "deepEquals st (XML k n v ins as cs) other =
     (if k \<noteq> xkind other then Inr False
      else if (n \<noteq> None) \<noteq> (xname other \<noteq> None) \<or>
              (case n of None \<Rightarrow> False
               | Some q \<Rightarrow> \<not> (case xname other of None \<Rightarrow> False | Some oq \<Rightarrow> ASQName_equals q oq))
      then Inr False
      else if k \<noteq> Element then Inr (v = xvalue other)
      else if length as \<noteq> length (xattributes other) then Inr False
      else if length cs \<noteq> length (xchildren other) then Inr False
      else
        (case attributesFound as (xattributes other) of
           Inl e \<Rightarrow> Inl e
         | Inr found \<Rightarrow> if \<not> found then Inr False else equalsChildren st cs (xchildren other)))"
| "equalsChildren st [] others = Inr True"
| "equalsChildren st (child # rest) [] = Inr False"
| "equalsChildren st (child # rest) (otherChild # others) =
     (case equals st child otherChild of
        Inl e \<Rightarrow> Inl e
      | Inr eq \<Rightarrow> if \<not> eq then Inr False else equalsChildren st rest others)"


section \<open>The object store\<close>

text \<open>
  Nodes and name objects are objects with an identity. A reference is the index of the
  object in the store; \<open>new\<close> appends to the store. A node holds its arrays itself (no two
  nodes ever hold the same array object) and refers to its name object, its parent, its
  attributes and its children by reference. \<open>None\<close> is \<open>null\<close> for the parent and
  \<open>undefined\<close> for a name or an array.
\<close>

type_synonym ref = nat

record node =
  kind :: ASXMLKind
  name :: "ref option"
  "value" :: string
  parent :: "ref option"
  children :: "ref list option"
  attributes :: "ref list option"
  inScopeNamespaces :: "Namespace list option"

record store =
  nodes :: "node list"
  qnames :: "ASQName list"

definition emptyStore :: store where
  "emptyStore = \<lparr>nodes = [], qnames = []\<rparr>"

definition updNode :: "store \<Rightarrow> ref \<Rightarrow> (node \<Rightarrow> node) \<Rightarrow> store" where
  "updNode \<sigma> r f = \<sigma>\<lparr>nodes := (nodes \<sigma>)[r := f (nodes \<sigma> ! r)]\<rparr>"

text \<open>\<open>new AS.ASXML()\<close>: a Text node with the empty value and no parent.\<close>

definition new_ASXML :: "store \<Rightarrow> store \<times> ref" where
  "new_ASXML \<sigma> =
     (\<sigma>\<lparr>nodes := nodes \<sigma> @ [\<lparr>kind = Text, name = None, value = '''', parent = None,
                                children = None, attributes = None, inScopeNamespaces = None\<rparr>]\<rparr>,
      length (nodes \<sigma>))"

text \<open>
  \<open>init(kind, uri, name, prefix)\<close>; \<open>uri || prefix\<close> holds when one of the two is a
  non-empty string.
\<close>

definition init ::
  "settings \<Rightarrow> store \<Rightarrow> ref \<Rightarrow> ASXMLKind \<Rightarrow> string \<Rightarrow> string \<Rightarrow> string option \<Rightarrow> error + store" where
  "init st \<sigma> this kind' uri' name' prefix' =
     bindE (if uri' \<noteq> '''' \<or> (prefix' \<noteq> None \<and> prefix' \<noteq> Some '''')
            then bindE (new_ASNamespace prefix' uri') (\<lambda>ns. Inr (Some ns))
            else Inr None) (\<lambda>namespace'.
     bindE (new_ASQName st namespace' name' (kind' = Attribute)) (\<lambda>q.
       Inr (updNode (\<sigma>\<lparr>qnames := qnames \<sigma> @ [q]\<rparr>) this (\<lambda>n.
              (if kind' = Element then
                 n\<lparr>name := Some (length (qnames \<sigma>)), kind := kind', parent := None,
                   inScopeNamespaces := Some [], attributes := Some [], children := Some []\<rparr>
               else if kind' = Comment \<or> kind' = ProcessingInstruction \<or>
                       kind' = Attribute \<or> kind' = Text then
                 n\<lparr>name := Some (length (qnames \<sigma>)), kind := kind', parent := None, value := ''''\<rparr>
               else n\<lparr>name := Some (length (qnames \<sigma>)), kind := kind', parent := None\<rparr>)))))"

text \<open>\<open>createXML(kind, uri, name, prefix)\<close> with \<open>kind\<close>, \<open>uri\<close> and \<open>name\<close> given.\<close>

definition createXML ::
  "settings \<Rightarrow> store \<Rightarrow> ASXMLKind \<Rightarrow> string \<Rightarrow> string \<Rightarrow> string option \<Rightarrow> error + (store \<times> ref)" where
  "createXML st \<sigma> kind' uri' name' prefix' =
     (case new_ASXML \<sigma> of (\<sigma>1, xml) \<Rightarrow>
        bindE (init st \<sigma>1 xml kind' uri' name' prefix') (\<lambda>\<sigma>2. Inr (\<sigma>2, xml)))"

text \<open>\<open>XML.[[Length]]\<close>.\<close>

definition length_xml :: "store \<Rightarrow> ref \<Rightarrow> nat" where
  "length_xml \<sigma> this = (case children (nodes \<sigma> ! this) of None \<Rightarrow> 0 | Some cs \<Rightarrow> length cs)"

text \<open>The arrays of a node, an array that the node does not have being empty.\<close>

definition attrs_of :: "node \<Rightarrow> ref list" where
  "attrs_of n = (case attributes n of None \<Rightarrow> [] | Some as \<Rightarrow> as)"

definition kids_of :: "node \<Rightarrow> ref list" where
  "kids_of n = (case children n of None \<Rightarrow> [] | Some cs \<Rightarrow> cs)"

definition scope_of :: "node \<Rightarrow> Namespace list" where
  "scope_of n = (case inScopeNamespaces n of None \<Rightarrow> [] | Some ins \<Rightarrow> ins)"

text \<open>
  A node as \<open>init\<close> leaves it: an Element holds its three arrays and a node of another kind
  holds none.
\<close>

definition wellShaped :: "node \<Rightarrow> bool" where
  "wellShaped n =
     (if kind n = Element
      then inScopeNamespaces n \<noteq> None \<and> attributes n \<noteq> None \<and> children n \<noteq> None
      else kind n \<noteq> Unknown \<and> inScopeNamespaces n = None \<and> attributes n = None \<and> children n = None)"

definition name_of :: "store \<Rightarrow> node \<Rightarrow> ASQName option option" where
  "name_of \<sigma> n =
     (case name n of
        None \<Rightarrow> Some None
      | Some q \<Rightarrow> if q < length (qnames \<sigma>) then Some (Some (qnames \<sigma> ! q)) else None)"

text \<open>
  The tree denoted by a node of the store, read to the given depth. Only a well-formed
  node denotes a tree: every reference is to an object of the store and every node is as
  \<open>init\<close> leaves it. The value of an Element is never read by the algorithms on trees; its
  place in the tree is empty.
\<close>

fun tree_of :: "nat \<Rightarrow> store \<Rightarrow> ref \<Rightarrow> xml option" where
  "tree_of 0 \<sigma> x = None"
| "tree_of (Suc d) \<sigma> x =
     (if x < length (nodes \<sigma>) \<and> wellShaped (nodes \<sigma> ! x) then
        (case name_of \<sigma> (nodes \<sigma> ! x) of
           None \<Rightarrow> None
         | Some nm \<Rightarrow>
             (case those (map (tree_of d \<sigma>) (attrs_of (nodes \<sigma> ! x))) of
                None \<Rightarrow> None
              | Some ats \<Rightarrow>
                  (case those (map (tree_of d \<sigma>) (kids_of (nodes \<sigma> ! x))) of
                     None \<Rightarrow> None
                   | Some cts \<Rightarrow>
                       Some (XML (kind (nodes \<sigma> ! x)) nm
                               (if kind (nodes \<sigma> ! x) = Element then '''' else value (nodes \<sigma> ! x))
                               (scope_of (nodes \<sigma> ! x)) ats cts))))
      else None)"

text \<open>The nodes reached from a node through attributes and children, to the given depth.\<close>

fun reach :: "nat \<Rightarrow> store \<Rightarrow> ref \<Rightarrow> ref list" where
  "reach 0 \<sigma> x = [x]"
| "reach (Suc d) \<sigma> x =
     x # concat (map (reach d \<sigma>) (attrs_of (nodes \<sigma> ! x) @ kids_of (nodes \<sigma> ! x)))"

section \<open>DeepCopy (9.1.1.7)\<close>

text \<open>
  The copies of the attributes, or of the children, of the node being cloned: each is
  copied in turn by \<open>copy\<close> and its parent is set to the clone.
\<close>

fun copyAll ::
  "(store \<Rightarrow> ref \<Rightarrow> error + (store \<times> ref)) \<Rightarrow> store \<Rightarrow> ref \<Rightarrow> ref list \<Rightarrow> error + (store \<times> ref list)" where
  "copyAll copy \<sigma> clone [] = Inr (\<sigma>, [])"
| "copyAll copy \<sigma> clone (a # rest) =
     (case copy \<sigma> a of
        Inl e \<Rightarrow> Inl e
      | Inr (\<sigma>1, a') \<Rightarrow>
          (case copyAll copy (updNode \<sigma>1 a' (\<lambda>n. n\<lparr>parent := Some clone\<rparr>)) clone rest of
             Inl e \<Rightarrow> Inl e
           | Inr (\<sigma>2, rest') \<Rightarrow> Inr (\<sigma>2, a' # rest')))"

text \<open>
  \<open>_deepCopy\<close>, to the given depth of recursion. The clone's name is the name object of
  the original: \<open>clone._name = this._name\<close>.
\<close>

fun deepCopy :: "nat \<Rightarrow> store \<Rightarrow> ref \<Rightarrow> error + (store \<times> ref)" where
  "deepCopy 0 \<sigma> this = Inl OutOfFuel"
| "deepCopy (Suc d) \<sigma> this =
     (if \<not> this < length (nodes \<sigma>) then Inl JSTypeError
      else
        (let kind' = kind (nodes \<sigma> ! this) in
         case new_ASXML \<sigma> of (\<sigma>0, clone) \<Rightarrow>
         (let \<sigma>1 = updNode \<sigma>0 clone (\<lambda>n. n\<lparr>kind := kind', name := name (nodes \<sigma> ! this)\<rparr>) in
          if kind' = Element then
            (case (inScopeNamespaces (nodes \<sigma> ! this), attributes (nodes \<sigma> ! this),
                   children (nodes \<sigma> ! this)) of
               (Some ins, Some as, Some cs) \<Rightarrow>
                 (case sequenceE (map (\<lambda>ns. new_ASNamespace (prefix ns) (uri ns)) ins) of
                    Inl e \<Rightarrow> Inl e
                  | Inr ins' \<Rightarrow>
                      (let \<sigma>2 = updNode \<sigma>1 clone (\<lambda>n. n\<lparr>inScopeNamespaces := Some ins'\<rparr>) in
                       case copyAll (deepCopy d) \<sigma>2 clone as of
                         Inl e \<Rightarrow> Inl e
                       | Inr (\<sigma>3, as') \<Rightarrow>
                           (let \<sigma>4 = updNode \<sigma>3 clone (\<lambda>n. n\<lparr>attributes := Some as'\<rparr>) in
                            case copyAll (deepCopy d) \<sigma>4 clone cs of
                              Inl e \<Rightarrow> Inl e
                            | Inr (\<sigma>5, cs') \<Rightarrow>
                                Inr (updNode \<sigma>5 clone (\<lambda>n. n\<lparr>children := Some cs'\<rparr>), clone))))
             | _ \<Rightarrow> Inl JSTypeError)
          else if kind' = Comment \<or> kind' = ProcessingInstruction \<or>
                  kind' = Attribute \<or> kind' = Text then
            Inr (updNode \<sigma>1 clone (\<lambda>n. n\<lparr>value := value (nodes \<sigma> ! this)\<rparr>), clone)
          else Inr (\<sigma>1, clone))))"

text \<open>\<open>_deepEquals\<close> between two nodes of the store, through the trees they denote.\<close>

definition deepEqualsIn :: "nat \<Rightarrow> settings \<Rightarrow> store \<Rightarrow> ref \<Rightarrow> ref \<Rightarrow> error + bool" where
  "deepEqualsIn d st \<sigma> a b =
     (case (tree_of d \<sigma> a, tree_of d \<sigma> b) of
        (Some s, Some t) \<Rightarrow> deepEquals st s t
      | _ \<Rightarrow> Inl OutOfFuel)"

text \<open>
  \<open>ASQName.setUri\<close>: the uri of the name object's namespace is overwritten in place; a
  name without a namespace first gets a new one (with no prefix).
\<close>

definition setUri :: "store \<Rightarrow> ref \<Rightarrow> string \<Rightarrow> store" where
  "setUri \<sigma> q uri' =
     \<sigma>\<lparr>qnames := (qnames \<sigma>)[q := (qnames \<sigma> ! q)\<lparr>namespace :=
         (case namespace (qnames \<sigma> ! q) of
            None \<Rightarrow> Some \<lparr>prefix = None, uri = uri'\<rparr>
          | Some n \<Rightarrow> Some (n\<lparr>uri := uri'\<rparr>))\<rparr>]\<rparr>"


section \<open>Operations that change the tree\<close>

text \<open>\<open>Array.prototype.indexOf\<close>: the first index of the element, or \<open>-1\<close>.\<close>

fun indexOf :: "'a list \<Rightarrow> 'a \<Rightarrow> int" where
  "indexOf [] x = -1"
| "indexOf (y # ys) x = (if y = x then 0 else (let r = indexOf ys x in if r < 0 then -1 else r + 1))"

text \<open>
  \<open>array.splice(start, 1)\<close>: one element is removed at \<open>start\<close>; a negative \<open>start\<close> counts
  from the end of the array, so \<open>splice(-1, 1)\<close> removes the last element.
\<close>

definition splice1 :: "'a list \<Rightarrow> int \<Rightarrow> 'a list" where
  "splice1 xs start =
     (let k = (if start < 0 then max (int (length xs) + start) 0 else min start (int (length xs)))
      in take (nat k) xs @ drop (nat k + 1) xs)"

text \<open>
  The walk \<open>a = self; while (a) { if (a === v) throw ...; a = a._parent; }\<close>. It ends
  within as many steps as there are nodes unless the parent references form a cycle, in
  which case it never ends (\<open>None\<close>).
\<close>

fun ancestorOrSelf :: "nat \<Rightarrow> store \<Rightarrow> ref option \<Rightarrow> ref \<Rightarrow> bool option" where
  "ancestorOrSelf 0 \<sigma> a v = None"
| "ancestorOrSelf (Suc f) \<sigma> a v =
     (case a of
        None \<Rightarrow> Some False
      | Some r \<Rightarrow> if r = v then Some True else ancestorOrSelf f \<sigma> (parent (nodes \<sigma> ! r)) v)"

text \<open>
  \<open>insert(p, v)\<close> (9.1.1.11) on a node, for an index \<open>p\<close> and a node \<open>v\<close>. The children
  from \<open>p\<close> on move up by one and \<open>v\<close> is stored at \<open>p\<close> with its parent set to the node.
  Nothing is done to the array that held \<open>v\<close> before. An index beyond the length would
  leave holes in the array; the model has no holes and reports \<open>Unmodelled\<close> there.
\<close>

definition ASXML_insert :: "store \<Rightarrow> ref \<Rightarrow> nat \<Rightarrow> ref \<Rightarrow> error + store" where
  "ASXML_insert \<sigma> self p v =
     (let k = kind (nodes \<sigma> ! self) in
      if k = Text \<or> k = Comment \<or> k = ProcessingInstruction \<or> k = Attribute then Inr \<sigma>
      else
        (case (if k = Element then ancestorOrSelf (Suc (length (nodes \<sigma>))) \<sigma> (Some self) v
               else Some False) of
           None \<Rightarrow> Inl OutOfFuel
         | Some True \<Rightarrow> Inl (ThrownString ''Error in XML.prototype.insert()'')
         | Some False \<Rightarrow>
             (let cs = (case children (nodes \<sigma> ! self) of None \<Rightarrow> [] | Some cs \<Rightarrow> cs) in
              if p > length cs then Inl (Unmodelled ''array with holes'')
              else Inr (updNode (updNode \<sigma> v (\<lambda>n. n\<lparr>parent := Some self\<rparr>)) self
                          (\<lambda>n. n\<lparr>children := Some (take p cs @ [v] @ drop p cs)\<rparr>)))))"

text \<open>
  \<open>appendChild(child)\<close> for a node \<open>child\<close>: the child is first taken out of the children
  of its parent, with \<open>splice(indexOf(child), 1)\<close> (the assertion \<open>index >= 0\<close> is compiled
  out of a release build), then pushed to the node's children.
\<close>

definition ASXML_appendChild :: "store \<Rightarrow> ref \<Rightarrow> ref \<Rightarrow> error + store" where
  "ASXML_appendChild \<sigma> this child =
     bindE (case parent (nodes \<sigma> ! child) of
              None \<Rightarrow> Inr \<sigma>
            | Some p \<Rightarrow>
                (case children (nodes \<sigma> ! p) of
                   None \<Rightarrow> Inl JSTypeError
                 | Some pcs \<Rightarrow>
                     Inr (updNode \<sigma> p (\<lambda>n. n\<lparr>children := Some (splice1 pcs (indexOf pcs child))\<rparr>))))
       (\<lambda>\<sigma>1. case children (nodes \<sigma>1 ! this) of
                None \<Rightarrow> Inl JSTypeError
              | Some cs \<Rightarrow>
                  Inr (updNode (updNode \<sigma>1 this (\<lambda>n. n\<lparr>children := Some (cs @ [child])\<rparr>))
                         child (\<lambda>n. n\<lparr>parent := Some this\<rparr>)))"

text \<open>The private \<open>removeByIndex(index)\<close> of a node.\<close>

definition ASXML_removeByIndex :: "store \<Rightarrow> ref \<Rightarrow> nat \<Rightarrow> error + store" where
  "ASXML_removeByIndex \<sigma> this index =
     (case children (nodes \<sigma> ! this) of
        None \<Rightarrow> Inl JSTypeError
      | Some cs \<Rightarrow>
          if index < length cs then
            Inr (updNode (updNode \<sigma> (cs ! index) (\<lambda>n. n\<lparr>parent := None\<rparr>)) this
                   (\<lambda>n. n\<lparr>children := Some (splice1 cs (int index))\<rparr>))
          else Inl JSTypeError)"

definition ASXML_deleteByIndex :: "store \<Rightarrow> ref \<Rightarrow> nat \<Rightarrow> error + store" where
  "ASXML_deleteByIndex \<sigma> this p =
     (case children (nodes \<sigma> ! this) of
        None \<Rightarrow> Inl JSTypeError
      | Some cs \<Rightarrow>
          if p < length cs then
            Inr (updNode (updNode \<sigma> (cs ! p) (\<lambda>n. n\<lparr>parent := None\<rparr>)) this
                   (\<lambda>n. n\<lparr>children := Some (splice1 cs (int p))\<rparr>))
          else Inr \<sigma>)"

section \<open>Normalize (13.4.4.26)\<close>

text \<open>
  Step 2.b.i, entered with \<open>i\<close> already incremented: while the child at \<open>i\<close> is a Text node,
  its value is appended to \<open>child\<close> and it is removed. Every round removes a child, so the
  fuel given by the caller (the number of children) is never used up.
\<close>

fun normalize_merge :: "nat \<Rightarrow> store \<Rightarrow> ref \<Rightarrow> ref \<Rightarrow> nat \<Rightarrow> error + store" where
  "normalize_merge 0 \<sigma> this child i = Inl OutOfFuel"
| "normalize_merge (Suc f) \<sigma> this child i =
     (case children (nodes \<sigma> ! this) of
        None \<Rightarrow> Inl JSTypeError
      | Some cs \<Rightarrow>
          if i < length cs then
            (let nextChild = cs ! i in
             if kind (nodes \<sigma> ! nextChild) \<noteq> Text then Inr \<sigma>
             else
               bindE (ASXML_removeByIndex
                        (updNode \<sigma> child (\<lambda>n. n\<lparr>value := value n @ value (nodes \<sigma> ! nextChild)\<rparr>))
                        this i)
                 (\<lambda>\<sigma>1. normalize_merge f \<sigma>1 this child i))
          else Inr \<sigma>)"

text \<open>
  \<open>normalize()\<close> and its loop over the children, at index \<open>i\<close>. After a Text child the
  index has been incremented by the merging loop (\<open>for (i++; ...)\<close>); steps 2.b.ii and
  2.b.iii then use that index: an empty \<open>child\<close> leads to \<open>removeByIndex(i)\<close>, a non-empty
  one to a second \<open>i++\<close>. The first argument bounds the number of rounds and of nested
  calls together.
\<close>

fun ASXML_normalize :: "nat \<Rightarrow> store \<Rightarrow> ref \<Rightarrow> error + store"
  and normalize_loop :: "nat \<Rightarrow> store \<Rightarrow> ref \<Rightarrow> nat \<Rightarrow> error + store" where
  "ASXML_normalize 0 \<sigma> this = Inl OutOfFuel"
| "ASXML_normalize (Suc f) \<sigma> this = normalize_loop f \<sigma> this 0"
| "normalize_loop 0 \<sigma> this i = Inl OutOfFuel"
| "normalize_loop (Suc f) \<sigma> this i =
     (case children (nodes \<sigma> ! this) of
        None \<Rightarrow> Inl JSTypeError
      | Some cs \<Rightarrow>
          if \<not> i < length cs then Inr \<sigma>
          else
            (let child = cs ! i in
             if kind (nodes \<sigma> ! child) = Element then
               bindE (ASXML_normalize f \<sigma> child) (\<lambda>\<sigma>1. normalize_loop f \<sigma>1 this (i + 1))
             else if kind (nodes \<sigma> ! child) = Text then
               bindE (normalize_merge (Suc (length cs)) \<sigma> this child (i + 1)) (\<lambda>\<sigma>1.
                 if length (value (nodes \<sigma>1 ! child)) = 0 then
                   bindE (ASXML_removeByIndex \<sigma>1 this (i + 1)) (\<lambda>\<sigma>2. normalize_loop f \<sigma>2 this (i + 1))
                 else normalize_loop f \<sigma>1 this (i + 1 + 1))
             else normalize_loop f \<sigma> this (i + 1)))"

section \<open>Values, property access and lists\<close>

text \<open>
  An XMLList: its members by reference, and the object and property it was read from.
\<close>

record ASXMLList =
  list_children :: "ref list"
  targetObject :: "ref option"
  targetProperty :: "ASQName option"

datatype jsvalue =
    Undefined
  | Null
  | StringValue string
  | XMLValue ref
  | XMLListValue ASXMLList

text \<open>\<open>contains(value)\<close> (13.4.4.10) on a node: \<open>this === value\<close>.\<close>

definition ASXML_contains :: "ref \<Rightarrow> jsvalue \<Rightarrow> error + bool" where
  "ASXML_contains this value' = Inr (value' = XMLValue this)"

text \<open>
  A property name: an index, or a qualified name object.

  Modelled from the spec: \<open>isIndex\<close> and \<open>isNumeric\<close> are not part of the sources at hand.
  The specification speaks of numeric property access by an index; here they hold of the
  names built with \<open>IndexName\<close>, whose number is an unsigned 32-bit integer, and of no other.
\<close>

datatype propertyName = IndexName nat | QualifiedName ASQName

definition isIndex :: "propertyName \<Rightarrow> bool" where
  "isIndex mn = (case mn of IndexName i \<Rightarrow> True | QualifiedName q \<Rightarrow> False)"

definition isNumeric :: "propertyName \<Rightarrow> bool" where
  "isNumeric mn = (case mn of IndexName i \<Rightarrow> True | QualifiedName q \<Rightarrow> False)"

definition isQName :: "propertyName \<Rightarrow> bool" where
  "isQName mn = (case mn of IndexName i \<Rightarrow> False | QualifiedName q \<Rightarrow> False)"

datatype propertyResult = ResultXML ref | ResultNull | ResultList ASXMLList

text \<open>
  \<open>getProperty(mn, isAttribute)\<close> (9.1.1.1). An index is answered at once: the node itself
  when \<open>(mn|0) === 0\<close>, else \<open>null\<close>. A qualified name selects, in order, the matching
  attributes or the matching Element children.
\<close>

definition ASXML_getProperty :: "store \<Rightarrow> ref \<Rightarrow> propertyName \<Rightarrow> bool \<Rightarrow> error + propertyResult" where
  "ASXML_getProperty \<sigma> this mn isAttribute0 =
     (if isIndex mn \<or> (\<not> isQName mn \<and> isNumeric mn) then
        (if toInt32 (case mn of IndexName i \<Rightarrow> int i | QualifiedName q \<Rightarrow> 0) = 0
         then Inr (ResultXML this) else Inr ResultNull)
      else
        (case mn of
           IndexName i \<Rightarrow> Inr ResultNull
         | QualifiedName name' \<Rightarrow>
             (let anyName = (ANY_NAME \<in> flags name');
                  anyNamespace = (ANY_NAMESPACE \<in> flags name');
                  isAttribute = (isAttribute0 \<or> ATTR_NAME \<in> flags name');
                  candidates = (if isAttribute
                                then (case attributes (nodes \<sigma> ! this) of None \<Rightarrow> [] | Some as \<Rightarrow> as)
                                else (case children (nodes \<sigma> ! this) of None \<Rightarrow> [] | Some cs \<Rightarrow> cs)) in
              if list_ex (\<lambda>v. \<not> (case name (nodes \<sigma> ! v) of None \<Rightarrow> False | Some q \<Rightarrow> q < length (qnames \<sigma>))
                               \<and> (isAttribute \<or> kind (nodes \<sigma> ! v) = Element)
                               \<and> \<not> (anyName \<and> anyNamespace)) candidates
              then Inl JSTypeError
              else
                Inr (ResultList \<lparr>list_children =
                       filter (\<lambda>v.
                         (anyName \<or> (isAttribute \<or> kind (nodes \<sigma> ! v) = Element) \<and>
                            localName (qnames \<sigma> ! the (name (nodes \<sigma> ! v))) = localName name') \<and>
                         (anyNamespace \<or> (isAttribute \<or> kind (nodes \<sigma> ! v) = Element) \<and>
                            ASQName_uri (qnames \<sigma> ! the (name (nodes \<sigma> ! v))) = ASQName_uri name'))
                         candidates,
                     targetObject = Some this, targetProperty = Some name'\<rparr>))))"

text \<open>The node methods to which a list delegates.\<close>

definition ASXML_parent :: "store \<Rightarrow> ref \<Rightarrow> jsvalue" where
  "ASXML_parent \<sigma> this = (case parent (nodes \<sigma> ! this) of None \<Rightarrow> Undefined | Some p \<Rightarrow> XMLValue p)"

definition ASXML_childIndex :: "store \<Rightarrow> ref \<Rightarrow> error + int" where
  "ASXML_childIndex \<sigma> this =
     (case parent (nodes \<sigma> ! this) of
        None \<Rightarrow> Inr (-1)
      | Some p \<Rightarrow>
          if kind (nodes \<sigma> ! this) = Attribute then Inr (-1)
          else (case children (nodes \<sigma> ! p) of
                  None \<Rightarrow> Inl JSTypeError
                | Some cs \<Rightarrow> Inr (indexOf cs this)))"

definition ASXMLKindNames :: "ASXMLKind \<Rightarrow> string option" where
  "ASXMLKindNames k =
     (case k of Unknown \<Rightarrow> None | Element \<Rightarrow> Some ''element'' | Attribute \<Rightarrow> Some ''attribute''
      | Text \<Rightarrow> Some ''text'' | Comment \<Rightarrow> Some ''comment''
      | ProcessingInstruction \<Rightarrow> Some ''processing-instruction'')"

definition ASXML_nodeKind :: "store \<Rightarrow> ref \<Rightarrow> error + string option" where
  "ASXML_nodeKind \<sigma> this = Inr (ASXMLKindNames (kind (nodes \<sigma> ! this)))"

definition ASXML_localName :: "store \<Rightarrow> ref \<Rightarrow> error + string" where
  "ASXML_localName \<sigma> this =
     (case name (nodes \<sigma> ! this) of
        None \<Rightarrow> Inl JSTypeError
      | Some q \<Rightarrow> Inr (localName (qnames \<sigma> ! q)))"

text \<open>
  \<open>XMLList.parent()\<close> (13.5.4.17): \<open>undefined\<close> for the empty list, else the parent of the
  first member if every other member has the same parent, else \<open>undefined\<close>.
\<close>

definition ASXMLList_parent :: "store \<Rightarrow> ASXMLList \<Rightarrow> error + jsvalue" where
  "ASXMLList_parent \<sigma> this =
     (case list_children this of
        [] \<Rightarrow> Inr Undefined
      | first # rest \<Rightarrow>
          if list_ex (\<lambda>c. parent (nodes \<sigma> ! c) \<noteq> parent (nodes \<sigma> ! first)) rest then Inr Undefined
          else Inr (case parent (nodes \<sigma> ! first) of None \<Rightarrow> Null | Some p \<Rightarrow> XMLValue p))"

text \<open>
  The accessors of a list that work with one item only share one shape: unless the list
  has exactly one member, \<open>XMLOnlyWorksWithOneItemLists\<close> is raised with the name of the
  accessor; else the method of that name is called on \<open>this._children[0]\<close>. The method of
  the node is an argument of the accessors whose node method is not modelled here.
\<close>

definition ASXMLList_childIndex :: "store \<Rightarrow> ASXMLList \<Rightarrow> error + int" where
  "ASXMLList_childIndex \<sigma> this =
     (if length (list_children this) \<noteq> 1 then Inl (XMLOnlyWorksWithOneItemLists ''childIndex'')
      else ASXML_childIndex \<sigma> (list_children this ! 0))"

definition ASXMLList_nodeKind :: "store \<Rightarrow> ASXMLList \<Rightarrow> error + string option" where
  "ASXMLList_nodeKind \<sigma> this =
     (if length (list_children this) \<noteq> 1 then Inl (XMLOnlyWorksWithOneItemLists ''nodeKind'')
      else ASXML_nodeKind \<sigma> (list_children this ! 0))"

definition ASXMLList_localName :: "store \<Rightarrow> ASXMLList \<Rightarrow> error + string" where
  "ASXMLList_localName \<sigma> this =
     (if length (list_children this) \<noteq> 1 then Inl (XMLOnlyWorksWithOneItemLists ''localName'')
      else ASXML_localName \<sigma> (list_children this ! 0))"

definition ASXMLList_appendChild :: "store \<Rightarrow> ASXMLList \<Rightarrow> ref \<Rightarrow> error + (store \<times> ref)" where
  "ASXMLList_appendChild \<sigma> this child =
     (if length (list_children this) \<noteq> 1 then Inl (XMLOnlyWorksWithOneItemLists ''appendChild'')
      else bindE (ASXML_appendChild \<sigma> (list_children this ! 0) child)
             (\<lambda>\<sigma>1. Inr (\<sigma>1, list_children this ! 0)))"

definition ASXMLList_setName ::
  "(store \<Rightarrow> ref \<Rightarrow> 'n \<Rightarrow> error + 'r) \<Rightarrow> store \<Rightarrow> ASXMLList \<Rightarrow> 'n \<Rightarrow> error + 'r" where
  "ASXMLList_setName ASXML_setName \<sigma> this name' =
     (if length (list_children this) \<noteq> 1 then Inl (XMLOnlyWorksWithOneItemLists ''setName'')
      else ASXML_setName \<sigma> (list_children this ! 0) name')"

definition ASXMLList_addNamespace ::
  "(store \<Rightarrow> ref \<Rightarrow> 'n \<Rightarrow> error + store) \<Rightarrow> store \<Rightarrow> ASXMLList \<Rightarrow> 'n \<Rightarrow> error + (store \<times> ref)" where
  "ASXMLList_addNamespace ASXML_addNamespace \<sigma> this ns =
     (if length (list_children this) \<noteq> 1 then Inl (XMLOnlyWorksWithOneItemLists ''addNamespace'')
      else bindE (ASXML_addNamespace \<sigma> (list_children this ! 0) ns)
             (\<lambda>\<sigma>1. Inr (\<sigma>1, list_children this ! 0)))"

definition ASXMLList_namespace ::
  "(store \<Rightarrow> ref \<Rightarrow> 'p \<Rightarrow> error + 'r) \<Rightarrow> store \<Rightarrow> ASXMLList \<Rightarrow> 'p \<Rightarrow> error + 'r" where
  "ASXMLList_namespace ASXML_namespace \<sigma> this prefix' =
     (if length (list_children this) \<noteq> 1 then Inl (XMLOnlyWorksWithOneItemLists ''namespace'')
      else ASXML_namespace \<sigma> (list_children this ! 0) prefix')"


section \<open>The markup parser\<close>

text \<open>\<open>s.indexOf(searchString, position)\<close>: the first index from \<open>position\<close> on, if any.\<close>

fun findSub :: "string \<Rightarrow> string \<Rightarrow> nat option" where
  "findSub sub [] = (if sub = [] then Some 0 else None)"
| "findSub sub (c # cs) =
     (if take (length sub) (c # cs) = sub then Some 0
      else (case findSub sub cs of None \<Rightarrow> None | Some k \<Rightarrow> Some (Suc k)))"

definition indexOfFrom :: "string \<Rightarrow> string \<Rightarrow> nat \<Rightarrow> nat option" where
  "indexOfFrom s sub position' =
     (case findSub sub (drop position' s) of
        None \<Rightarrow> None
      | Some k \<Rightarrow> Some (min position' (length s) + k))"

text \<open>A loop of the shape \<open>while (pos < s.length && P(s[pos])) ++pos\<close>.\<close>

function scanWhile :: "(char \<Rightarrow> bool) \<Rightarrow> string \<Rightarrow> nat \<Rightarrow> nat" where
  "scanWhile P s pos = (if pos < length s \<and> P (s ! pos) then scanWhile P s (pos + 1) else pos)"
  by pat_completeness auto
termination
  by (relation "measure (\<lambda>(P, s, pos). length s - pos)") auto

declare scanWhile.simps [simp del]

definition isWhitespaceChar :: "char \<Rightarrow> bool" where
  "isWhitespaceChar ch = (ch = CHR '' '' \<or> ch = CHR 0x0A \<or> ch = CHR 0x0D \<or> ch = CHR 0x09)"

definition skipWs :: "string \<Rightarrow> nat \<Rightarrow> nat" where
  "skipWs s pos = scanWhile isWhitespaceChar s pos"

subsection \<open>Entities\<close>

text \<open>
  \<open>parseInt(string, radix)\<close> for the radix 10 or 16: white space is skipped, a sign is
  read, for the radix 16 a prefix \<open>0x\<close> is dropped, and the digits up to the first other
  character are the number; without a digit the result is \<open>NaN\<close> (\<open>None\<close>).
\<close>

definition isStrWhiteSpaceChar :: "char \<Rightarrow> bool" where
  "isStrWhiteSpaceChar ch =
     (ch = CHR 0x09 \<or> ch = CHR 0x0A \<or> ch = CHR 0x0B \<or> ch = CHR 0x0C \<or> ch = CHR 0x0D \<or>
      ch = CHR 0x20 \<or> ch = CHR 0xA0)"

definition digitValue :: "char \<Rightarrow> nat option" where
  "digitValue ch =
     (let c = of_char ch :: nat in
      if 48 \<le> c \<and> c \<le> 57 then Some (c - 48)
      else if 97 \<le> c \<and> c \<le> 122 then Some (c - 97 + 10)
      else if 65 \<le> c \<and> c \<le> 90 then Some (c - 65 + 10)
      else None)"

definition isRadixDigit :: "nat \<Rightarrow> char \<Rightarrow> bool" where
  "isRadixDigit radix ch = (case digitValue ch of None \<Rightarrow> False | Some d \<Rightarrow> d < radix)"

definition digitsValue :: "nat \<Rightarrow> string \<Rightarrow> nat" where
  "digitsValue radix ds = foldl (\<lambda>acc ch. acc * radix + (case digitValue ch of None \<Rightarrow> 0 | Some d \<Rightarrow> d)) 0 ds"

definition parseInt :: "string \<Rightarrow> nat \<Rightarrow> (int \<times> nat) option" where
  "parseInt str radix =
     (let s1 = dropWhile isStrWhiteSpaceChar str;
          negative = (take 1 s1 = ''-'');
          s2 = (if take 1 s1 = ''-'' \<or> take 1 s1 = ''+'' then drop 1 s1 else s1);
          s3 = (if radix = 16 \<and> (take 2 s2 = ''0x'' \<or> take 2 s2 = ''0X'') then drop 2 s2 else s2);
          ds = takeWhile (isRadixDigit radix) s3 in
      if ds = [] then None
      else Some ((if negative then - int (digitsValue radix ds) else int (digitsValue radix ds)),
                 length ds))"

text \<open>
  \<open>String.fromCharCode(parseInt(...))\<close>: the code unit is the number modulo \<open>2^16\<close>, and
  \<open>0\<close> for \<open>NaN\<close>. A \<^typ>\<open>char\<close> holds the code units below 256 only, and a number of more
  than 15 digits is not an exact double: both cases are outside the model.
\<close>

definition fromCharCode :: "(int \<times> nat) option \<Rightarrow> error + string" where
  "fromCharCode n =
     (case n of
        None \<Rightarrow> Inr [CHR 0x00]
      | Some (v, digits) \<Rightarrow>
          if digits > 15 then Inl (Unmodelled ''number beyond the exact integers'')
          else (let u = v mod 65536 in
                if u < 256 then Inr [char_of u] else Inl (Unmodelled ''code unit above 255'')))"

definition entityReplacement :: "string \<Rightarrow> error + string" where
  "entityReplacement entity =
     (if take 2 entity = ''#x'' then fromCharCode (parseInt (drop 2 entity) 16)
      else if take 1 entity = ''#'' then fromCharCode (parseInt (drop 1 entity) 10)
      else if entity = ''lt'' then Inr ''<''
      else if entity = ''gt'' then Inr ''>''
      else if entity = ''amp'' then Inr ''&''
      else if entity = ''quot'' then Inr [CHR 0x22]
      else Inr (''&'' @ entity @ '';''))"

text \<open>
  \<open>s.replace(/&([^;]+);/g, ...)\<close>: from left to right, an ampersand that is followed by
  at least one character other than a semicolon and, further on, by a semicolon, is
  replaced together with everything up to the first such semicolon.
\<close>

function resolveEntities :: "string \<Rightarrow> error + string" where
  "resolveEntities [] = Inr []"
| "resolveEntities (c # cs) =
     (if c = CHR ''&'' \<and> cs \<noteq> [] \<and> hd cs \<noteq> CHR '';'' \<and> CHR '';'' \<in> set cs then
        (case entityReplacement (takeWhile (\<lambda>ch. ch \<noteq> CHR '';'') cs) of
           Inl e \<Rightarrow> Inl e
         | Inr r \<Rightarrow>
             (case resolveEntities (drop 1 (dropWhile (\<lambda>ch. ch \<noteq> CHR '';'') cs)) of
                Inl e \<Rightarrow> Inl e
              | Inr rest \<Rightarrow> Inr (r @ rest)))
      else (case resolveEntities cs of Inl e \<Rightarrow> Inl e | Inr rest \<Rightarrow> Inr (c # rest)))"
  by pat_completeness auto
termination
proof (relation "measure length")
  show "wf (measure length)" by simp
next
  fix c :: char and cs :: string
  have "length (dropWhile (\<lambda>ch. ch \<noteq> CHR '';'') cs) \<le> length cs"
    by (rule length_dropWhile_le)
  then show "(drop 1 (dropWhile (\<lambda>ch. ch \<noteq> CHR '';'') cs), c # cs) \<in> measure length"
    by simp
next
  fix c :: char and cs :: string
  show "(cs, c # cs) \<in> measure length" by simp
qed

subsection \<open>Scopes and names\<close>

text \<open>
  One entry of the stack \<open>scopes\<close>. \<open>lookup\<close> maps a prefix to a uri; the latest binding of a
  prefix is the first pair with it. \<open>xmlns\<close> and \<open>space\<close> are \<open>None\<close> when the scope object
  has no such property. The keys that the first scope's \<open>lookup\<close> inherits from the host's
  \<open>Object.prototype\<close> are not modelled.
\<close>

record scope =
  scope_namespaces :: "Namespace list"
  lookup :: "(string \<times> string) list"
  inScopes :: "Namespace list"
  space :: "string option"
  xmlns :: "string option"

definition initialScopes :: "settings \<Rightarrow> scope list" where
  "initialScopes st =
     [\<lparr>scope_namespaces = [],
       lookup = [(''xmlns'', ''http://www.w3.org/2000/xmlns/''),
                 (''xml'', ''http://www.w3.org/XML/1998/namespace'')],
       inScopes = (if defaultNamespace st = '''' then []
                   else [\<lparr>prefix = Some '''', uri = defaultNamespace st\<rparr>]),
       space = Some ''default'',
       xmlns = Some (defaultNamespace st)\<rparr>]"

text \<open>The three searches run from the last scope of the stack to the first.\<close>

definition isWhitespacePreserved :: "scope list \<Rightarrow> bool" where
  "isWhitespacePreserved scopes = list_ex (\<lambda>sc. space sc = Some ''preserve'') (rev scopes)"

fun lookupDefaultNs_in :: "scope list \<Rightarrow> string" where
  "lookupDefaultNs_in [] = ''''"
| "lookupDefaultNs_in (sc # rest) = (case xmlns sc of Some u \<Rightarrow> u | None \<Rightarrow> lookupDefaultNs_in rest)"

definition lookupDefaultNs :: "scope list \<Rightarrow> string" where
  "lookupDefaultNs scopes = lookupDefaultNs_in (rev scopes)"

fun lookupNs_in :: "string \<Rightarrow> scope list \<Rightarrow> string option" where
  "lookupNs_in prefix' [] = None"
| "lookupNs_in prefix' (sc # rest) =
     (case map_of (lookup sc) prefix' of Some u \<Rightarrow> Some u | None \<Rightarrow> lookupNs_in prefix' rest)"

definition lookupNs :: "scope list \<Rightarrow> string \<Rightarrow> string option" where
  "lookupNs scopes prefix' = lookupNs_in prefix' (rev scopes)"

record parsedName =
  pn_localName :: string
  pn_prefix :: string
  pn_namespace :: string

definition getName :: "scope list \<Rightarrow> string \<Rightarrow> bool \<Rightarrow> error + parsedName" where
  "getName scopes name' resolveDefaultNs =
     (case indexOfFrom name' '':'' 0 of
        Some j \<Rightarrow>
          (let prefix' = substring name' 0 j in
           case lookupNs scopes prefix' of
             None \<Rightarrow> Inl (ThrownString (''Unknown namespace: '' @ prefix'))
           | Some namespace' \<Rightarrow>
               Inr \<lparr>pn_localName = drop (j + 1) name', pn_prefix = prefix', pn_namespace = namespace'\<rparr>)
      | None \<Rightarrow>
          if resolveDefaultNs then
            Inr \<lparr>pn_localName = name', pn_prefix = '''', pn_namespace = lookupDefaultNs scopes\<rparr>
          else Inr \<lparr>pn_localName = name', pn_prefix = '''', pn_namespace = ''''\<rparr>)"

subsection \<open>Tags\<close>

definition isNameChar :: "char \<Rightarrow> bool" where
  "isNameChar ch = (\<not> isWhitespaceChar ch \<and> ch \<noteq> CHR ''>'' \<and> ch \<noteq> CHR ''/'')"

text \<open>
  The attribute loop of \<open>parseContent\<close>. Every round reads at least the \<open>=\<close> and the two
  quotes, so a fuel of the length of the input is never used up.
\<close>

fun parseContent_attributes ::
  "nat \<Rightarrow> string \<Rightarrow> nat \<Rightarrow> (string \<times> string) list \<Rightarrow> error + (nat \<times> (string \<times> string) list)" where
  "parseContent_attributes 0 s pos attributes' = Inl OutOfFuel"
| "parseContent_attributes (Suc f) s pos attributes' =
     (if pos < length s \<and> s ! pos \<noteq> CHR ''>'' \<and> s ! pos \<noteq> CHR ''/'' \<and> s ! pos \<noteq> CHR ''?'' then
        (let pos1 = skipWs s pos;
             pos2 = scanWhile (\<lambda>ch. \<not> isWhitespaceChar ch \<and> ch \<noteq> CHR ''='') s pos1;
             attrName = substring s pos1 pos2;
             pos3 = skipWs s pos2 in
         if charAt s pos3 \<noteq> Some CHR ''='' then Inl (ThrownString [CHR 0x27, CHR ''='', CHR 0x27, CHR '' '', CHR ''e'', CHR ''x'', CHR ''p'', CHR ''e'', CHR ''c'', CHR ''t'', CHR ''e'', CHR ''d''])
         else
           (let pos4 = skipWs s (pos3 + 1) in
            case charAt s pos4 of
              None \<Rightarrow> Inl (ThrownString ''Quote expected'')
            | Some attrEndChar \<Rightarrow>
                if attrEndChar \<noteq> CHR 0x22 \<and> attrEndChar \<noteq> CHR 0x27 then Inl (ThrownString ''Quote expected'')
                else
                  (case indexOfFrom s [attrEndChar] (pos4 + 1) of
                     None \<Rightarrow> Inl (ThrownString ''Unexpected EOF[6]'')
                   | Some attrEndIndex \<Rightarrow>
                       (case resolveEntities (substring s (pos4 + 1) attrEndIndex) of
                          Inl e \<Rightarrow> Inl e
                        | Inr v \<Rightarrow>
                            parseContent_attributes f s (skipWs s (attrEndIndex + 1))
                              (attributes' @ [(attrName, v)])))))
      else Inr (pos, attributes'))"

record content =
  content_name :: string
  content_attributes :: "(string \<times> string) list"
  parsed :: nat

definition parseContent :: "string \<Rightarrow> nat \<Rightarrow> error + content" where
  "parseContent s start =
     (let pos = scanWhile isNameChar s start;
          name' = substring s start pos in
      case parseContent_attributes (Suc (length s)) s (skipWs s pos) [] of
        Inl e \<Rightarrow> Inl e
      | Inr (pos', attributes') \<Rightarrow>
          Inr \<lparr>content_name = name', content_attributes = attributes', parsed = pos' - start\<rparr>)"

text \<open>The loop of \<open>parseProcessingInstruction\<close> that looks for \<open>?>\<close>.\<close>

function scanPI :: "string \<Rightarrow> nat \<Rightarrow> nat" where
  "scanPI s pos =
     (if pos < length s \<and> (s ! pos \<noteq> CHR ''?'' \<or> charAt s (pos + 1) \<noteq> Some CHR ''>'')
      then scanPI s (pos + 1) else pos)"
  by pat_completeness auto
termination
  by (relation "measure (\<lambda>(s, pos). length s - pos)") auto

declare scanPI.simps [simp del]

definition parseProcessingInstruction :: "string \<Rightarrow> nat \<Rightarrow> string \<times> string \<times> nat" where
  "parseProcessingInstruction s start =
     (let pos = scanWhile isNameChar s start;
          name' = substring s start pos;
          attrStart = skipWs s pos;
          pos' = scanPI s attrStart in
      (name', substring s attrStart pos', pos' - start))"

subsection \<open>The tree builder\<close>

text \<open>
  The state of \<open>parseFromString\<close>: the store, \<open>currentElement\<close> and \<open>elementsStack\<close>, whose
  entries are \<open>undefined\<close> (\<open>None\<close>) once more elements were closed than opened.
\<close>

record builder =
  heap :: store
  currentElement :: "ref option"
  elementsStack :: "ref option list"

definition popElement :: "builder \<Rightarrow> builder" where
  "popElement b =
     (if elementsStack b = [] then b\<lparr>currentElement := None\<rparr>
      else b\<lparr>currentElement := last (elementsStack b), elementsStack := butlast (elementsStack b)\<rparr>)"

text \<open>\<open>currentElement.insert(currentElement.length(), node)\<close>.\<close>

definition insertLast :: "builder \<Rightarrow> ref \<Rightarrow> error + builder" where
  "insertLast b node' =
     (case currentElement b of
        None \<Rightarrow> Inl JSTypeError
      | Some cur \<Rightarrow>
          bindE (ASXML_insert (heap b) cur (length_xml (heap b) cur) node')
            (\<lambda>\<sigma>. Inr (b\<lparr>heap := \<sigma>\<rparr>)))"

text \<open>The attributes of a new element, created and pushed one after the other.\<close>

fun addAttributes :: "settings \<Rightarrow> store \<Rightarrow> ref \<Rightarrow> (parsedName \<times> string) list \<Rightarrow> error + store" where
  "addAttributes st \<sigma> element [] = Inr \<sigma>"
| "addAttributes st \<sigma> element ((rawName, rawValue) # rest) =
     bindE (createXML st \<sigma> Attribute (pn_namespace rawName) (pn_localName rawName) (Some (pn_prefix rawName)))
       (\<lambda>(\<sigma>1, attr).
          (case attributes (nodes \<sigma>1 ! element) of
             None \<Rightarrow> Inl JSTypeError
           | Some as \<Rightarrow>
               addAttributes st
                 (updNode (updNode \<sigma>1 attr (\<lambda>n. n\<lparr>value := rawValue, parent := Some element\<rparr>))
                    element (\<lambda>n. n\<lparr>attributes := Some (as @ [attr])\<rparr>))
                 element rest))"

fun addNamespaces :: "store \<Rightarrow> ref \<Rightarrow> Namespace list \<Rightarrow> error + store" where
  "addNamespaces \<sigma> element [] = Inr \<sigma>"
| "addNamespaces \<sigma> element (rawNs # rest) =
     bindE (new_ASNamespace (prefix rawNs) (uri rawNs)) (\<lambda>ns.
       (case inScopeNamespaces (nodes \<sigma> ! element) of
          None \<Rightarrow> Inl JSTypeError
        | Some ins \<Rightarrow>
            addNamespaces (updNode \<sigma> element (\<lambda>n. n\<lparr>inScopeNamespaces := Some (ins @ [ns])\<rparr>))
              element rest))"

definition beginElement ::
  "settings \<Rightarrow> builder \<Rightarrow> parsedName \<Rightarrow> (parsedName \<times> string) list \<Rightarrow> Namespace list \<Rightarrow> bool \<Rightarrow> error + builder" where
  "beginElement st b name' attrs namespaces isEmpty =
     (let parent' = currentElement b in
      bindE (createXML st (heap b) Element (pn_namespace name') (pn_localName name') (Some (pn_prefix name')))
        (\<lambda>(\<sigma>1, element).
      bindE (addAttributes st \<sigma>1 element attrs) (\<lambda>\<sigma>2.
      bindE (addNamespaces \<sigma>2 element namespaces) (\<lambda>\<sigma>3.
        (case parent' of
           None \<Rightarrow> Inl JSTypeError
         | Some p \<Rightarrow>
             bindE (ASXML_insert \<sigma>3 p (length_xml \<sigma>3 p) element) (\<lambda>\<sigma>4.
               (let b1 = \<lparr>heap = \<sigma>4, currentElement = Some element,
                          elementsStack = elementsStack b @ [parent']\<rparr> in
                Inr (if isEmpty then popElement b1 else b1))))))))"

definition endElement :: "builder \<Rightarrow> error + builder" where
  "endElement b = Inr (popElement b)"

definition newLeaf :: "settings \<Rightarrow> builder \<Rightarrow> ASXMLKind \<Rightarrow> string \<Rightarrow> string \<Rightarrow> error + builder" where
  "newLeaf st b kind' name' text =
     bindE (createXML st (heap b) kind' '''' name' None) (\<lambda>(\<sigma>1, node').
       insertLast (b\<lparr>heap := updNode \<sigma>1 node' (\<lambda>n. n\<lparr>value := text\<rparr>)\<rparr>) node')"

definition sink_text :: "settings \<Rightarrow> builder \<Rightarrow> string \<Rightarrow> bool \<Rightarrow> error + builder" where
  "sink_text st b text0 isWhitespacePreserve =
     (let text = (if ignoreWhitespace st then trimWhitespaces text0 else text0) in
      if length text = 0 \<or> (isWhitespacePreserve \<and> ignoreWhitespace st) then Inr b
      else newLeaf st b Text '''' text)"

definition sink_cdata :: "settings \<Rightarrow> builder \<Rightarrow> string \<Rightarrow> error + builder" where
  "sink_cdata st b text = newLeaf st b Text '''' text"

definition sink_comment :: "settings \<Rightarrow> builder \<Rightarrow> string \<Rightarrow> error + builder" where
  "sink_comment st b text = (if ignoreComments st then Inr b else newLeaf st b Comment '''' text)"

definition sink_pi :: "settings \<Rightarrow> builder \<Rightarrow> string \<Rightarrow> string \<Rightarrow> error + builder" where
  "sink_pi st b name' value' =
     (if ignoreProcessingInstructions st then Inr b
      else newLeaf st b ProcessingInstruction name' value')"

subsection \<open>The scan\<close>

text \<open>
  The attributes of a start tag are first searched for namespace declarations and
  \<open>xml:\<close> attributes; a declaration is deleted from the list (\<open>None\<close>), the others stay.
\<close>

fun scanDeclarations ::
  "scope list \<Rightarrow> scope \<Rightarrow> (string \<times> string) list \<Rightarrow> error + (scope \<times> (string \<times> string) option list)" where
  "scanDeclarations scopes sc [] = Inr (sc, [])"
| "scanDeclarations scopes sc ((attributeName, attributeValue) # rest) =
     (if substring attributeName 0 6 = ''xmlns:'' then
        (let prefix' = drop 6 attributeName;
             sc1 = (if lookupNs scopes prefix' \<noteq> Some attributeValue
                    then sc\<lparr>lookup := (prefix', trimWhitespaces attributeValue) # lookup sc,
                            scope_namespaces := scope_namespaces sc @ [\<lparr>prefix = Some prefix', uri = attributeValue\<rparr>]\<rparr>
                    else sc) in
         bindE (scanDeclarations scopes sc1 rest) (\<lambda>(sc2, kept). Inr (sc2, None # kept)))
      else if attributeName = ''xmlns'' then
        (let sc1 = (if lookupDefaultNs scopes \<noteq> attributeValue
                    then sc\<lparr>xmlns := Some (trimWhitespaces attributeValue),
                            scope_namespaces := scope_namespaces sc @ [\<lparr>prefix = Some '''', uri = attributeValue\<rparr>]\<rparr>
                    else sc) in
         bindE (scanDeclarations scopes sc1 rest) (\<lambda>(sc2, kept). Inr (sc2, None # kept)))
      else if substring attributeName 0 4 = ''xml:'' then
        (let xmlAttrName = drop 4 attributeName in
         if xmlAttrName \<noteq> ''space'' \<and> xmlAttrName \<noteq> ''lang'' \<and> xmlAttrName \<noteq> ''base'' \<and> xmlAttrName \<noteq> ''id''
         then Inl (ThrownString (''Invalid xml attribute: '' @ attributeName))
         else
           bindE (scanDeclarations scopes
                    (if xmlAttrName = ''space'' then sc\<lparr>space := Some (trimWhitespaces attributeValue)\<rparr> else sc)
                    rest)
             (\<lambda>(sc2, kept). Inr (sc2, Some (attributeName, attributeValue) # kept)))
      else if substring attributeName 0 3 = ''xml'' then Inl (ThrownString ''Invalid xml attribute'')
      else bindE (scanDeclarations scopes sc rest)
             (\<lambda>(sc2, kept). Inr (sc2, Some (attributeName, attributeValue) # kept)))"

text \<open>The namespaces in scope at the new element: its own, then those it inherits.\<close>

definition collectInScopes :: "scope \<Rightarrow> Namespace list \<Rightarrow> Namespace list" where
  "collectInScopes sc inherited =
     filter (\<lambda>ns. \<not> prefixed ns \<or> map_of (lookup sc) (the (prefix ns)) = Some (uri ns)) (scope_namespaces sc)
     @ filter (\<lambda>ns. (prefixed ns \<and> map_of (lookup sc) (the (prefix ns)) = None) \<or>
                    (\<not> prefixed ns \<and> xmlns sc = None)) inherited"

fun resolveAttributes ::
  "scope list \<Rightarrow> (string \<times> string) option list \<Rightarrow> error + (parsedName \<times> string) list" where
  "resolveAttributes scopes [] = Inr []"
| "resolveAttributes scopes (None # rest) = resolveAttributes scopes rest"
| "resolveAttributes scopes (Some (n, v) # rest) =
     bindE (getName scopes n False) (\<lambda>pn.
       bindE (resolveAttributes scopes rest) (\<lambda>rs. Inr ((pn, v) # rs)))"

record parser =
  scopes :: "scope list"
  build :: builder

text \<open>The default branch of the \<open>switch\<close>: a start tag that begins at \<open>j\<close>.\<close>

definition startTag :: "settings \<Rightarrow> string \<Rightarrow> nat \<Rightarrow> parser \<Rightarrow> error + (nat \<times> parser)" where
  "startTag st s j ps =
     bindE (parseContent s j) (\<lambda>c.
       (let isClosed = (substring s (j + parsed c) (j + parsed c + 2) = ''/>'') in
        if \<not> isClosed \<and> substring s (j + parsed c) (j + parsed c + 1) \<noteq> ''>''
        then Inl (ThrownString ''Unexpected EOF[2]'')
        else
          bindE (scanDeclarations (scopes ps)
                   \<lparr>scope_namespaces = [], lookup = [], inScopes = [], space = None, xmlns = None\<rparr>
                   (content_attributes c)) (\<lambda>(sc, kept).
            (if scopes ps = [] then Inl JSTypeError
             else
               (let inScopeNamespaces' = collectInScopes sc (inScopes (last (scopes ps)));
                    scopes1 = scopes ps @ [sc\<lparr>inScopes := inScopeNamespaces'\<rparr>] in
                bindE (resolveAttributes scopes1 kept) (\<lambda>attributes'.
                bindE (getName scopes1 (content_name c) True) (\<lambda>name'.
                bindE (beginElement st (build ps) name' attributes' inScopeNamespaces' isClosed) (\<lambda>b.
                  Inr (j + parsed c + (if isClosed then 2 else 1),
                       \<lparr>scopes = (if isClosed then butlast scopes1 else scopes1), build = b\<rparr>)))))))))"

text \<open>The branch of the \<open>switch\<close> for \<open><!\<close>, with \<open>j\<close> at the exclamation mark.\<close>

definition bangTag :: "settings \<Rightarrow> string \<Rightarrow> nat \<Rightarrow> parser \<Rightarrow> error + (nat \<times> parser)" where
  "bangTag st s j ps =
     (if substring s (j + 1) (j + 3) = ''--'' then
        (case indexOfFrom s ''-->'' (j + 3) of
           None \<Rightarrow> Inl (ThrownString ''Unexpected EOF[3]'')
         | Some q \<Rightarrow>
             bindE (sink_comment st (build ps) (substring s (j + 3) q))
               (\<lambda>b. Inr (q + 3, ps\<lparr>build := b\<rparr>)))
      else if substring s (j + 1) (j + 8) = ''[CDATA['' then
        (case indexOfFrom s '']]>'' (j + 8) of
           None \<Rightarrow> Inl (ThrownString ''Unexpected EOF[4]'')
         | Some q \<Rightarrow>
             bindE (sink_cdata st (build ps) (substring s (j + 8) q))
               (\<lambda>b. Inr (q + 3, ps\<lparr>build := b\<rparr>)))
      else if substring s (j + 1) (j + 8) = ''DOCTYPE'' then
        (case indexOfFrom s ''>'' (j + 8) of
           None \<Rightarrow> Inl (ThrownString ''Unexpected EOF[5]'')
         | Some q \<Rightarrow>
             (case indexOfFrom s ''['' (j + 8) of
                None \<Rightarrow> Inr (q + 1, ps)
              | Some q2 \<Rightarrow>
                  if q2 > 0 \<and> q > q2 then
                    (case indexOfFrom s '']>'' (j + 8) of
                       None \<Rightarrow> Inl (ThrownString ''Unexpected EOF[7]'')
                     | Some q' \<Rightarrow> Inr (q' + 2, ps))
                  else Inr (q + 1, ps)))
      else Inl (ThrownString ''Unknown !tag''))"

text \<open>
  The loop \<open>do { } while (j++ < s.length && s[j] !== "<")\<close> from \<open>j\<close>: the result is the
  index of the next \<open><\<close> after \<open>j\<close>, or one more than the length.
\<close>

function textEnd :: "string \<Rightarrow> nat \<Rightarrow> nat" where
  "textEnd s j =
     (if j < length s then (if charAt s (j + 1) \<noteq> Some CHR ''<'' then textEnd s (j + 1) else j + 1)
      else j + 1)"
  by pat_completeness auto
termination
  by (relation "measure (\<lambda>(s, j). length s - j)") auto

declare textEnd.simps [simp del]

text \<open>
  The main loop of \<open>parseXml\<close> from index \<open>i\<close>. Every round moves on by at least one
  character, so a fuel of one more than the length of the input is never used up.
\<close>

fun parseXml_loop :: "nat \<Rightarrow> settings \<Rightarrow> string \<Rightarrow> nat \<Rightarrow> parser \<Rightarrow> error + parser" where
  "parseXml_loop 0 st s i ps = Inl OutOfFuel"
| "parseXml_loop (Suc f) st s i ps =
     (if \<not> i < length s then Inr ps
      else if s ! i = CHR ''<'' then
        (let j = i + 1 in
         bindE
           (if charAt s j = Some CHR ''/'' then
              (case indexOfFrom s ''>'' (j + 1) of
                 None \<Rightarrow> Inl (ThrownString ''Unexpected EOF[1]'')
               | Some q \<Rightarrow>
                   bindE (getName (scopes ps) (substring s (j + 1) q) True) (\<lambda>name'.
                   bindE (endElement (build ps)) (\<lambda>b.
                     Inr (q + 1, \<lparr>scopes = butlast (scopes ps), build = b\<rparr>))))
            else if charAt s j = Some CHR ''?'' then
              (case parseProcessingInstruction s (j + 1) of (piName, piValue, piParsed) \<Rightarrow>
                 if substring s (j + 1 + piParsed) (j + 1 + piParsed + 2) \<noteq> ''?>''
                 then Inl (ThrownString ''Unexpected EOF[2]'')
                 else bindE (sink_pi st (build ps) piName piValue)
                        (\<lambda>b. Inr (j + 1 + piParsed + 2, ps\<lparr>build := b\<rparr>)))
            else if charAt s j = Some CHR ''!'' then bangTag st s j ps
            else startTag st s j ps)
           (\<lambda>(j', ps'). parseXml_loop f st s j' ps'))
      else
        (let j = textEnd s i in
         bindE (resolveEntities (substring s i j)) (\<lambda>text.
         bindE (sink_text st (build ps) text (isWhitespacePreserved (scopes ps))) (\<lambda>b.
           parseXml_loop f st s j (ps\<lparr>build := b\<rparr>)))))"

text \<open>
  \<open>parseFromString(s)\<close>: the result is \<open>currentElement\<close> at the end of the scan, which is the
  placeholder element when every element was closed, and \<open>undefined\<close> (\<open>None\<close>) when more
  were closed than opened.
\<close>

definition parseFromString :: "settings \<Rightarrow> store \<Rightarrow> string \<Rightarrow> error + (store \<times> ref option)" where
  "parseFromString st \<sigma> s =
     bindE (createXML st \<sigma> Element '''' '''' (Some '''')) (\<lambda>(\<sigma>1, placeholder).
     bindE (parseXml_loop (Suc (length s)) st s 0
              \<lparr>scopes = initialScopes st,
               build = \<lparr>heap = \<sigma>1, currentElement = Some placeholder, elementsStack = []\<rparr>\<rparr>)
       (\<lambda>ps. Inr (heap (build ps), currentElement (build ps))))"

section \<open>ToXML (10.3)\<close>

definition toXML :: "settings \<Rightarrow> store \<Rightarrow> jsvalue \<Rightarrow> error + (store \<times> ref)" where
  "toXML st \<sigma> v =
     (case v of
        Null \<Rightarrow> Inl ConvertNullToObjectError
      | Undefined \<Rightarrow> Inl ConvertUndefinedToObjectError
      | XMLValue x \<Rightarrow> Inr (\<sigma>, x)
      | XMLListValue l \<Rightarrow>
          if length (list_children l) \<noteq> 1 then Inl XMLMarkupMustBeWellFormed
          else Inr (\<sigma>, list_children l ! 0)
      | StringValue s \<Rightarrow>
          bindE (parseFromString st \<sigma> s) (\<lambda>(\<sigma>1, x').
            (case x' of
               None \<Rightarrow> Inl JSTypeError
             | Some x \<Rightarrow>
                 (let length' = length_xml \<sigma>1 x in
                  if length' = 0 then createXML st \<sigma>1 Text '''' '''' None
                  else if length' = 1 then
                    (case children (nodes \<sigma>1 ! x) of
                       None \<Rightarrow> Inl JSTypeError
                     | Some cs \<Rightarrow> Inr (updNode \<sigma>1 (cs ! 0) (\<lambda>n. n\<lparr>parent := None\<rparr>), cs ! 0))
                  else Inl XMLMarkupMustBeWellFormed))))"


section \<open>Trees and stores used in examples\<close>

text \<open>
  The name that the parser gives to a node outside any namespace, and the trees of a Text
  node and of an Element with such names (the default namespace being the empty one).
\<close>

definition unqualified :: "string \<Rightarrow> ASQNameFlags \<Rightarrow> ASQName" where
  "unqualified n f = \<lparr>namespace = Some \<lparr>prefix = Some '''', uri = ''''\<rparr>, localName = n, flags = {f}\<rparr>"

definition textNode :: "string \<Rightarrow> xml" where
  "textNode v = XML Text (Some (unqualified '''' ELEM_NAME)) v [] [] []"

definition elementNode :: "string \<Rightarrow> xml list \<Rightarrow> xml list \<Rightarrow> xml" where
  "elementNode n as cs = XML Element (Some (unqualified n ELEM_NAME)) '''' [] as cs"

text \<open>The store after \<open>new XML(s)\<close> in an empty store, and the node returned.\<close>

definition storeOf :: "string \<Rightarrow> store" where
  "storeOf s = (case toXML initialSettings emptyStore (StringValue s) of
                  Inl e \<Rightarrow> emptyStore | Inr (\<sigma>, x) \<Rightarrow> \<sigma>)"

definition rootOf :: "string \<Rightarrow> ref" where
  "rootOf s = (case toXML initialSettings emptyStore (StringValue s) of
                 Inl e \<Rightarrow> 0 | Inr (\<sigma>, x) \<Rightarrow> x)"


text \<open>The store after \<open>new XML(s)\<close> and a copy of the node \<open>x\<close>, and the copy itself.\<close>

definition storeAfterCopy :: "string \<Rightarrow> ref \<Rightarrow> store" where
  "storeAfterCopy s x = (case deepCopy 10 (storeOf s) x of Inl e \<Rightarrow> emptyStore | Inr (\<sigma>, y) \<Rightarrow> \<sigma>)"

definition copyOf :: "string \<Rightarrow> ref \<Rightarrow> ref" where
  "copyOf s x = (case deepCopy 10 (storeOf s) x of Inl e \<Rightarrow> 0 | Inr (\<sigma>, y) \<Rightarrow> y)"

text \<open>The store after \<open>new XML(s).normalize()\<close>.\<close>

definition normalizedStore :: "string \<Rightarrow> store" where
  "normalizedStore s = (case ASXML_normalize 100 (storeOf s) (rootOf s) of
                          Inl e \<Rightarrow> emptyStore | Inr \<sigma> \<Rightarrow> \<sigma>)"

text \<open>
  The store after \<open>new XML(s)\<close>, the creation of a new element \<open>q\<close>, and \<open>q.insert(0, c)\<close> or
  \<open>q.appendChild(c)\<close> for a node \<open>c\<close> of the parsed tree. The new element is the node after
  those of the parsed tree.
\<close>

definition storeAfterInsert :: "string \<Rightarrow> ref \<Rightarrow> store" where
  "storeAfterInsert s c =
     (case bindE (createXML initialSettings (storeOf s) Element '''' ''q'' None)
             (\<lambda>(\<sigma>, q). ASXML_insert \<sigma> q 0 c) of
        Inl e \<Rightarrow> emptyStore | Inr \<sigma> \<Rightarrow> \<sigma>)"

definition storeAfterAppend :: "string \<Rightarrow> ref \<Rightarrow> store" where
  "storeAfterAppend s c =
     (case bindE (createXML initialSettings (storeOf s) Element '''' ''q'' None)
             (\<lambda>(\<sigma>, q). ASXML_appendChild \<sigma> q c) of
        Inl e \<Rightarrow> emptyStore | Inr \<sigma> \<Rightarrow> \<sigma>)"


section \<open>Regular trees\<close>

text \<open>
  A tree all of whose in-scope namespaces are as the namespace constructor returns them
  and all of whose attributes have a name.
\<close>

fun regular :: "xml \<Rightarrow> bool" where
  "regular (XML k n v ins as cs) =
     ((\<forall>ns \<in> set ins. new_ASNamespace (prefix ns) (uri ns) = Inr ns) \<and>
      (\<forall>a \<in> set as. xname a \<noteq> None \<and> regular a) \<and>
      (\<forall>c \<in> set cs. regular c))"

text \<open>Two nodes that differ in the parent at most.\<close>

definition sameButParent :: "node \<Rightarrow> node \<Rightarrow> bool" where
  "sameButParent m n = (m\<lparr>parent := None\<rparr> = n\<lparr>parent := None\<rparr>)"

text \<open>
  Two stores with the same name objects whose nodes at the given references, as far as
  the first store has them, differ in the parent at most.
\<close>

definition agreeOn :: "ref set \<Rightarrow> store \<Rightarrow> store \<Rightarrow> bool" where
  "agreeOn R \<sigma> \<sigma>' =
     (qnames \<sigma>' = qnames \<sigma> \<and>
      (\<forall>r \<in> R. r < length (nodes \<sigma>) \<longrightarrow>
         r < length (nodes \<sigma>') \<and> sameButParent (nodes \<sigma>' ! r) (nodes \<sigma> ! r)))"

section \<open>Synthesized prefixes in use\<close>


section \<open>Clones\<close>

text \<open>
  What a copy by \<open>copy\<close> of the node \<open>x\<close>, denoting the tree \<open>t\<close>, is to achieve: the clone
  is the next new node, the store is only extended, the clone denotes \<open>t\<close> again, has no
  parent, refers to the name object of \<open>x\<close>, and reaches new nodes only.
\<close>

definition cloned :: "nat \<Rightarrow> store \<Rightarrow> ref \<Rightarrow> xml \<Rightarrow> store \<Rightarrow> bool" where
  "cloned d \<sigma> x t \<sigma>' =
     (length (nodes \<sigma>) < length (nodes \<sigma>') \<and>
      (\<forall>r < length (nodes \<sigma>). nodes \<sigma>' ! r = nodes \<sigma> ! r) \<and>
      qnames \<sigma>' = qnames \<sigma> \<and>
      tree_of d \<sigma>' (length (nodes \<sigma>)) = Some t \<and>
      parent (nodes \<sigma>' ! length (nodes \<sigma>)) = None \<and>
      name (nodes \<sigma>' ! length (nodes \<sigma>)) = name (nodes \<sigma> ! x) \<and>
      (\<forall>r \<in> set (reach d \<sigma>' (length (nodes \<sigma>))). length (nodes \<sigma>) \<le> r \<and> r < length (nodes \<sigma>')))"

definition copies :: "nat \<Rightarrow> (store \<Rightarrow> ref \<Rightarrow> error + (store \<times> ref)) \<Rightarrow> bool" where
  "copies d copy =
     (\<forall>\<sigma> x t. tree_of d \<sigma> x = Some t \<and> regular t \<longrightarrow>
        (\<exists>\<sigma>'. copy \<sigma> x = Inr (\<sigma>', length (nodes \<sigma>)) \<and> cloned d \<sigma> x t \<sigma>'))"


section \<open>Properties of escaping\<close>

lemma escapeElementValue_loop_eq:
  "i \<le> length s \<Longrightarrow>
   escapeElementValue_loop s i buf = buf @ concat (map spec_escapeElementChar (drop i s))"
proof (induction s i buf rule: escapeElementValue_loop.induct)
  case (1 s i buf)
  show ?case
  proof (cases "i < length s")
    case True
    then have d: "drop i s = s ! i # drop (i + 1) s"
      by (simp add: Cons_nth_drop_Suc)
    from True have le: "i + 1 \<le> length s" by simp
    define b' where "b' = buf @ spec_escapeElementChar (s ! i)"
    have b'_eq: "b' = (if s ! i = CHR ''&'' then buf @ ''&amp;''
            else if s ! i = CHR ''<'' then buf @ ''&lt;''
            else if s ! i = CHR ''>'' then buf @ ''&gt;''
            else buf @ [s ! i])"
      by (simp add: b'_def spec_escapeElementChar_def)
    have "escapeElementValue_loop s i buf = escapeElementValue_loop s (i + 1) b'"
      using True by (subst escapeElementValue_loop.simps) (simp add: b'_eq Let_def)
    also have "\<dots> = b' @ concat (map spec_escapeElementChar (drop (i + 1) s))"
      using "1.IH" [OF True refl le] by (simp add: b'_eq)
    finally show ?thesis by (simp add: d b'_def)
  next
    case False
    then have "escapeElementValue_loop s i buf = buf"
      by (subst escapeElementValue_loop.simps) simp
    with False "1.prems" show ?thesis by simp
  qed
qed

lemma escapeElementValue_scan_prefix:
  "i \<le> length s \<Longrightarrow>
   i \<le> escapeElementValue_scan s i \<and> escapeElementValue_scan s i \<le> length s \<and>
   (\<forall>k. i \<le> k \<and> k < escapeElementValue_scan s i \<longrightarrow> spec_escapeElementChar (s ! k) = [s ! k])"
proof (induction s i rule: escapeElementValue_scan.induct)
  case (1 s i)
  show ?case
  proof (cases "i < length s \<and> s ! i \<noteq> CHR ''&'' \<and> s ! i \<noteq> CHR ''<'' \<and> s ! i \<noteq> CHR ''>''")
    case True
    then have step: "escapeElementValue_scan s i = escapeElementValue_scan s (i + 1)"
      by (subst escapeElementValue_scan.simps) simp
    from True have "i + 1 \<le> length s" by simp
    with "1.IH" True have ih:
      "i + 1 \<le> escapeElementValue_scan s (i + 1) \<and> escapeElementValue_scan s (i + 1) \<le> length s \<and>
       (\<forall>k. i + 1 \<le> k \<and> k < escapeElementValue_scan s (i + 1) \<longrightarrow>
            spec_escapeElementChar (s ! k) = [s ! k])"
      by blast
    have here: "spec_escapeElementChar (s ! i) = [s ! i]"
      using True by (simp add: spec_escapeElementChar_def)
    have "\<forall>k. i \<le> k \<and> k < escapeElementValue_scan s (i + 1) \<longrightarrow>
            spec_escapeElementChar (s ! k) = [s ! k]"
    proof (intro allI impI)
      fix k assume k: "i \<le> k \<and> k < escapeElementValue_scan s (i + 1)"
      show "spec_escapeElementChar (s ! k) = [s ! k]"
      proof (cases "k = i")
        case True then show ?thesis using here by simp
      next
        case False
        with k have "i + 1 \<le> k" by simp
        with k ih show ?thesis by blast
      qed
    qed
    with ih show ?thesis unfolding step by simp
  next
    case False
    then have "escapeElementValue_scan s i = i"
      by (subst escapeElementValue_scan.simps) auto
    with "1.prems" show ?thesis by auto
  qed
qed

lemma concat_map_unchanged:
  "(\<forall>k < length xs. f (xs ! k) = [xs ! k]) \<Longrightarrow> concat (map f xs) = xs"
proof (induction xs)
  case Nil
  then show ?case by simp
next
  case (Cons x xs)
  have "f x = [x]" using Cons.prems by (metis length_greater_0_conv list.discI nth_Cons_0)
  moreover have "\<forall>k < length xs. f (xs ! k) = [xs ! k]"
    using Cons.prems by (metis Suc_less_eq length_Cons nth_Cons_Suc)
  ultimately show ?case using Cons.IH by simp
qed

lemma escapeElementValue_spec:
  "escapeElementValue s = concat (map spec_escapeElementChar s)"
proof -
  define i where "i = escapeElementValue_scan s 0"
  have b: "i \<le> length s"
    and u: "\<forall>k. k < i \<longrightarrow> spec_escapeElementChar (s ! k) = [s ! k]"
    using escapeElementValue_scan_prefix [of 0 s] by (simp_all add: i_def)
  have pre: "concat (map spec_escapeElementChar (take i s)) = take i s"
    using u b by (intro concat_map_unchanged) simp
  have split: "concat (map spec_escapeElementChar s)
      = concat (map spec_escapeElementChar (take i s)) @ concat (map spec_escapeElementChar (drop i s))"
    by (metis append_take_drop_id concat_append map_append)
  show ?thesis
  proof (cases "i \<ge> length s")
    case True
    with b have "take i s = s" by simp
    with pre have "concat (map spec_escapeElementChar s) = s" by simp
    moreover have "escapeElementValue s = s"
      using True by (simp add: escapeElementValue_def i_def [symmetric])
    ultimately show ?thesis by simp
  next
    case False
    then have "escapeElementValue s = escapeElementValue_loop s i (take i s)"
      by (simp add: escapeElementValue_def i_def [symmetric] substring_def Let_def min_def)
    also have "\<dots> = take i s @ concat (map spec_escapeElementChar (drop i s))"
      using b by (rule escapeElementValue_loop_eq)
    finally show ?thesis by (simp only: pre split)
  qed
qed

lemma escapeAttributeValue_loop_eq:
  "i \<le> length s \<Longrightarrow>
   escapeAttributeValue_loop s i buf = buf @ concat (map spec_escapeAttributeChar (drop i s))"
proof (induction s i buf rule: escapeAttributeValue_loop.induct)
  case (1 s i buf)
  show ?case
  proof (cases "i < length s")
    case True
    then have d: "drop i s = s ! i # drop (i + 1) s"
      by (simp add: Cons_nth_drop_Suc)
    from True have le: "i + 1 \<le> length s" by simp
    define b' where "b' = buf @ spec_escapeAttributeChar (s ! i)"
    have b'_eq: "b' = (if s ! i = CHR ''&'' then buf @ ''&amp;''
            else if s ! i = CHR ''<'' then buf @ ''&lt;''
            else if s ! i = CHR 0x22 then buf @ ''&quot;''
            else if s ! i = CHR 0x0A then buf @ ''&#xA;''
            else if s ! i = CHR 0x0D then buf @ ''&#xD;''
            else if s ! i = CHR 0x09 then buf @ ''&#x9;''
            else buf @ [s ! i])"
      by (simp add: b'_def spec_escapeAttributeChar_def)
    have "escapeAttributeValue_loop s i buf = escapeAttributeValue_loop s (i + 1) b'"
      using True by (subst escapeAttributeValue_loop.simps) (simp add: b'_eq Let_def)
    also have "\<dots> = b' @ concat (map spec_escapeAttributeChar (drop (i + 1) s))"
      using "1.IH" [OF True refl le] by (simp add: b'_eq)
    finally show ?thesis by (simp add: d b'_def)
  next
    case False
    then have "escapeAttributeValue_loop s i buf = buf"
      by (subst escapeAttributeValue_loop.simps) simp
    with False "1.prems" show ?thesis by simp
  qed
qed

lemma escapeAttributeValue_scan_prefix:
  "i \<le> length s \<Longrightarrow>
   i \<le> escapeAttributeValue_scan s i \<and> escapeAttributeValue_scan s i \<le> length s \<and>
   (\<forall>k. i \<le> k \<and> k < escapeAttributeValue_scan s i \<longrightarrow> spec_escapeAttributeChar (s ! k) = [s ! k])"
proof (induction s i rule: escapeAttributeValue_scan.induct)
  case (1 s i)
  show ?case
  proof (cases "i < length s \<and> s ! i \<noteq> CHR ''&'' \<and> s ! i \<noteq> CHR ''<'' \<and>
         s ! i \<noteq> CHR 0x22 \<and> s ! i \<noteq> CHR 0x0A \<and> s ! i \<noteq> CHR 0x0D \<and> s ! i \<noteq> CHR 0x09")
    case True
    then have step: "escapeAttributeValue_scan s i = escapeAttributeValue_scan s (i + 1)"
      by (subst escapeAttributeValue_scan.simps) simp
    from True have "i + 1 \<le> length s" by simp
    with "1.IH" True have ih:
      "i + 1 \<le> escapeAttributeValue_scan s (i + 1) \<and> escapeAttributeValue_scan s (i + 1) \<le> length s \<and>
       (\<forall>k. i + 1 \<le> k \<and> k < escapeAttributeValue_scan s (i + 1) \<longrightarrow>
            spec_escapeAttributeChar (s ! k) = [s ! k])"
      by blast
    have here: "spec_escapeAttributeChar (s ! i) = [s ! i]"
      using True by (simp add: spec_escapeAttributeChar_def)
    have "\<forall>k. i \<le> k \<and> k < escapeAttributeValue_scan s (i + 1) \<longrightarrow>
            spec_escapeAttributeChar (s ! k) = [s ! k]"
    proof (intro allI impI)
      fix k assume k: "i \<le> k \<and> k < escapeAttributeValue_scan s (i + 1)"
      show "spec_escapeAttributeChar (s ! k) = [s ! k]"
      proof (cases "k = i")
        case True then show ?thesis using here by simp
      next
        case False
        with k have "i + 1 \<le> k" by simp
        with k ih show ?thesis by blast
      qed
    qed
    with ih show ?thesis unfolding step by simp
  next
    case False
    then have "escapeAttributeValue_scan s i = i"
      by (subst escapeAttributeValue_scan.simps) auto
    with "1.prems" show ?thesis by auto
  qed
qed


lemma escapeAttributeValue_spec:
  "escapeAttributeValue s = concat (map spec_escapeAttributeChar s)"
proof -
  define i where "i = escapeAttributeValue_scan s 0"
  have b: "i \<le> length s"
    and u: "\<forall>k. k < i \<longrightarrow> spec_escapeAttributeChar (s ! k) = [s ! k]"
    using escapeAttributeValue_scan_prefix [of 0 s] by (simp_all add: i_def)
  have pre: "concat (map spec_escapeAttributeChar (take i s)) = take i s"
    using u b by (intro concat_map_unchanged) simp
  have split: "concat (map spec_escapeAttributeChar s)
      = concat (map spec_escapeAttributeChar (take i s)) @ concat (map spec_escapeAttributeChar (drop i s))"
    by (metis append_take_drop_id concat_append map_append)
  show ?thesis
  proof (cases "i \<ge> length s")
    case True
    with b have "take i s = s" by simp
    with pre have "concat (map spec_escapeAttributeChar s) = s" by simp
    moreover have "escapeAttributeValue s = s"
      using True by (simp add: escapeAttributeValue_def i_def [symmetric])
    ultimately show ?thesis by simp
  next
    case False
    then have "escapeAttributeValue s = escapeAttributeValue_loop s i (take i s)"
      by (simp add: escapeAttributeValue_def i_def [symmetric] substring_def Let_def min_def)
    also have "\<dots> = take i s @ concat (map spec_escapeAttributeChar (drop i s))"
      using b by (rule escapeAttributeValue_loop_eq)
    finally show ?thesis by (simp only: pre split)
  qed
qed


text \<open>
  Claim C9. For every string, \<open>escapeElementValue\<close> replaces exactly the code units
  \<open>&\<close>, \<open><\<close>, \<open>>\<close> by \<open>&amp;\<close>, \<open>&lt;\<close>, \<open>&gt;\<close> and
  \<open>escapeAttributeValue\<close> replaces exactly \<open>&\<close>, \<open><\<close>, the double quote, newline,
  carriage return and tab by \<open>&amp;\<close>, \<open>&lt;\<close>, \<open>&quot;\<close>, \<open>&#xA;\<close>,
  \<open>&#xD;\<close>, \<open>&#x9;\<close>; every other code unit is left as it is. The two examples of the
  specification are the last two conjuncts.
\<close>

theorem escape_values_replace_exactly:
  "escapeElementValue s = concat (map spec_escapeElementChar s) \<and>
   escapeAttributeValue s = concat (map spec_escapeAttributeChar s) \<and>
   escapeElementValue ''a<b>c&d'' = ''a&lt;b&gt;c&amp;d'' \<and>
   escapeAttributeValue [CHR ''a'', CHR 0x22, CHR ''b'', CHR 0x0A, CHR ''c''] = ''a&quot;b&#xA;c''"
  by (simp add: escapeElementValue_spec escapeAttributeValue_spec
        spec_escapeElementChar_def spec_escapeAttributeChar_def)


section \<open>Prefix synthesis\<close>











section \<open>Numeric property access\<close>

lemma toInt32_zero_iff: "i < 4294967296 \<Longrightarrow> toInt32 (int i) = 0 \<longleftrightarrow> i = 0"
proof -
  assume b: "i < 4294967296"
  show ?thesis
  proof (cases "i < 2147483648")
    case True
    then have "(int i + 2147483648) mod 4294967296 = int i + 2147483648"
      by (intro mod_pos_pos_trivial) simp_all
    then show ?thesis by (simp add: toInt32_def)
  next
    case False
    have "(int i + 2147483648 - 4294967296) mod 4294967296 = int i + 2147483648 - 4294967296"
      using False b by (intro mod_pos_pos_trivial) simp_all
    moreover have "(int i + 2147483648 - 4294967296) mod 4294967296 = (int i + 2147483648) mod 4294967296"
      by (rule minus_mod_self2)
    ultimately have "(int i + 2147483648) mod 4294967296 = int i + 2147483648 - 4294967296"
      by simp
    with False b show ?thesis by (simp add: toInt32_def)
  qed
qed

text \<open>
  Claim C4. For every node and every numeric index (an unsigned 32-bit integer), getting
  the property returns the node itself for the index 0 and \<open>null\<close>, the empty result, for
  every other index. The result is the same whatever the store holds, so the children of
  the node are never indexed.
\<close>

theorem getProperty_index:
  assumes "i < 4294967296"
  shows "ASXML_getProperty \<sigma> x (IndexName i) isAttribute
           = Inr (if i = 0 then ResultXML x else ResultNull)"
  using toInt32_zero_iff [OF assms]
  by (simp add: ASXML_getProperty_def isIndex_def)

theorem getProperty_index_witness:
  "ASXML_getProperty (storeOf ''<a><b/><c/></a>'') 1 (IndexName 1) False = Inr ResultNull"
proof -
  have h: "(1::nat) < 4294967296" by simp
  from getProperty_index [OF h, of "storeOf ''<a><b/><c/></a>''" 1 False]
  show ?thesis by simp
qed

section \<open>Containment\<close>

text \<open>
  Claim C10. For every node \<open>x\<close> and every value \<open>v\<close>, \<open>x.contains(v)\<close> is true exactly when
  \<open>v\<close> is the node \<open>x\<close> itself. A different node is not contained, in particular a
  different node that is \<open>_deepEquals\<close> to \<open>x\<close> and a child of \<open>x\<close>.
\<close>

theorem contains_is_identity:
  "ASXML_contains x v = Inr (v = XMLValue x) \<and>
   (y \<noteq> x \<and> deepEqualsIn d st \<sigma> x y = Inr True \<longrightarrow> ASXML_contains x (XMLValue y) = Inr False) \<and>
   (c \<noteq> x \<and> children (nodes \<sigma> ! x) = Some cs \<and> c \<in> set cs \<longrightarrow>
      ASXML_contains x (XMLValue c) = Inr False)"
  by (simp add: ASXML_contains_def)

theorem contains_is_identity_witness:
  "ASXML_contains 1 (XMLValue 1) = Inr True \<and>
   ASXML_contains 1 (XMLValue (copyOf ''<a><b/></a>'' 1)) = Inr False \<and>
   ASXML_contains 1 (XMLValue 2) = Inr False"
proof -
  let ?\<sigma> = "storeAfterCopy ''<a><b/></a>'' 1"
  let ?y = "copyOf ''<a><b/></a>'' 1"
  have h1: "?y \<noteq> 1 \<and> deepEqualsIn 3 initialSettings ?\<sigma> 1 ?y = Inr True"
    by code_simp
  have h2: "(2::nat) \<noteq> 1 \<and> children (nodes ?\<sigma> ! 1) = Some [2] \<and> (2::nat) \<in> set [2]"
    by code_simp
  note t = contains_is_identity [of 1 "XMLValue 1" ?y 3 initialSettings ?\<sigma> 2 "[2]"]
  from t have "ASXML_contains 1 (XMLValue 1) = Inr True" by simp
  moreover from t [THEN conjunct2, THEN conjunct1, rule_format, OF h1]
  have "ASXML_contains 1 (XMLValue ?y) = Inr False" .
  moreover from t [THEN conjunct2, THEN conjunct2, rule_format, OF h2]
  have "ASXML_contains 1 (XMLValue 2) = Inr False" .
  ultimately show ?thesis by blast
qed

section \<open>Accessors of a list\<close>

text \<open>
  The claim C6 as it is stated fails for \<open>parent\<close>: on the list of the two children of an
  element, \<open>parent()\<close> raises nothing and returns that element.
\<close>

theorem list_parent_counterexample:
  "ASXMLList_parent (storeOf ''<p><a/><b/></p>'')
     \<lparr>list_children = [2, 3], targetObject = None, targetProperty = None\<rparr>
   = Inr (XMLValue 1)"
  by code_simp

text \<open>
  Claim C6, amended. For a list whose length is not 1, each of \<open>childIndex\<close>, \<open>nodeKind\<close>,
  \<open>localName\<close>, \<open>appendChild\<close>, \<open>setName\<close>, \<open>addNamespace\<close> and \<open>namespace\<close> raises
  \<open>XMLOnlyWorksWithOneItemLists\<close> with its own name; for a list with one member the call is
  made on that member. \<open>parent\<close> raises nothing for any length: it returns \<open>undefined\<close> for
  the empty list and else the parent of the first member when all members have that same
  parent, and \<open>undefined\<close> when they do not.
\<close>

theorem single_item_accessors:
  "(length (list_children l) \<noteq> 1 \<longrightarrow>
      ASXMLList_childIndex \<sigma> l = Inl (XMLOnlyWorksWithOneItemLists ''childIndex'') \<and>
      ASXMLList_nodeKind \<sigma> l = Inl (XMLOnlyWorksWithOneItemLists ''nodeKind'') \<and>
      ASXMLList_localName \<sigma> l = Inl (XMLOnlyWorksWithOneItemLists ''localName'') \<and>
      ASXMLList_appendChild \<sigma> l c = Inl (XMLOnlyWorksWithOneItemLists ''appendChild'') \<and>
      ASXMLList_setName setName' \<sigma> l n = Inl (XMLOnlyWorksWithOneItemLists ''setName'') \<and>
      ASXMLList_addNamespace addNamespace' \<sigma> l ns = Inl (XMLOnlyWorksWithOneItemLists ''addNamespace'') \<and>
      ASXMLList_namespace namespace' \<sigma> l p = Inl (XMLOnlyWorksWithOneItemLists ''namespace'')) \<and>
   (list_children l = [x] \<longrightarrow>
      ASXMLList_childIndex \<sigma> l = ASXML_childIndex \<sigma> x \<and>
      ASXMLList_nodeKind \<sigma> l = ASXML_nodeKind \<sigma> x \<and>
      ASXMLList_localName \<sigma> l = ASXML_localName \<sigma> x \<and>
      ASXMLList_appendChild \<sigma> l c = bindE (ASXML_appendChild \<sigma> x c) (\<lambda>\<sigma>1. Inr (\<sigma>1, x)) \<and>
      ASXMLList_setName setName' \<sigma> l n = setName' \<sigma> x n \<and>
      ASXMLList_addNamespace addNamespace' \<sigma> l ns = bindE (addNamespace' \<sigma> x ns) (\<lambda>\<sigma>1. Inr (\<sigma>1, x)) \<and>
      ASXMLList_namespace namespace' \<sigma> l p = namespace' \<sigma> x p) \<and>
   (list_children l = [] \<longrightarrow> ASXMLList_parent \<sigma> l = Inr Undefined) \<and>
   (list_children l = first # rest \<longrightarrow>
      ASXMLList_parent \<sigma> l =
        Inr (if \<forall>m \<in> set rest. parent (nodes \<sigma> ! m) = parent (nodes \<sigma> ! first)
             then (case parent (nodes \<sigma> ! first) of None \<Rightarrow> Null | Some q \<Rightarrow> XMLValue q)
             else Undefined))"
  by (auto simp: ASXMLList_childIndex_def ASXMLList_nodeKind_def ASXMLList_localName_def
        ASXMLList_appendChild_def ASXMLList_setName_def ASXMLList_addNamespace_def
        ASXMLList_namespace_def ASXMLList_parent_def list_ex_iff)

theorem single_item_accessors_witness:
  "ASXMLList_childIndex (storeOf ''<p><a/><b/></p>'')
     \<lparr>list_children = [2, 3], targetObject = None, targetProperty = None\<rparr>
     = Inl (XMLOnlyWorksWithOneItemLists ''childIndex'') \<and>
   ASXMLList_setName (\<lambda>\<sigma> x n. Inr (x, n)) (storeOf ''<p><a/><b/></p>'')
     \<lparr>list_children = [2, 3], targetObject = None, targetProperty = None\<rparr> ''q''
     = Inl (XMLOnlyWorksWithOneItemLists ''setName'') \<and>
   ASXMLList_childIndex (storeOf ''<p><a/><b/></p>'')
     \<lparr>list_children = [3], targetObject = None, targetProperty = None\<rparr>
     = ASXML_childIndex (storeOf ''<p><a/><b/></p>'') 3 \<and>
   ASXMLList_setName (\<lambda>\<sigma> x n. Inr (x, n)) (storeOf ''<p><a/><b/></p>'')
     \<lparr>list_children = [3], targetObject = None, targetProperty = None\<rparr> ''q''
     = Inr (3, ''q'') \<and>
   ASXMLList_parent (storeOf ''<p><a/><b/></p>'')
     \<lparr>list_children = [], targetObject = None, targetProperty = None\<rparr> = Inr Undefined"
proof -
  let ?\<sigma> = "storeOf ''<p><a/><b/></p>''"
  let ?l2 = "\<lparr>list_children = [2, 3], targetObject = None, targetProperty = None\<rparr>"
  let ?l1 = "\<lparr>list_children = [3], targetObject = None, targetProperty = None\<rparr>"
  let ?l0 = "\<lparr>list_children = [], targetObject = None, targetProperty = None\<rparr>"
  let ?f = "\<lambda>(\<sigma>::store) (x::ref) (n::string). (Inr (x, n) :: error + (ref \<times> string))"
  let ?g = "\<lambda>(\<sigma>::store) (x::ref) (n::string). (Inr \<sigma> :: error + store)"
  have h2: "length (list_children ?l2) \<noteq> 1" by simp
  have h1: "list_children ?l1 = [3]" by simp
  have h0: "list_children ?l0 = []" by simp
  note a = single_item_accessors [of ?l2 ?\<sigma> 0 ?f "''q''" ?g "''''" ?f "''''" 0 0 "[]", THEN conjunct1, rule_format, OF h2]
  note b = single_item_accessors [of ?l1 ?\<sigma> 0 ?f "''q''" ?g "''''" ?f "''''" 3 0 "[]", THEN conjunct2, THEN conjunct1, rule_format, OF h1]
  note c = single_item_accessors [of ?l0 ?\<sigma> 0 ?f "''q''" ?g "''''" ?f "''''" 0 0 "[]", THEN conjunct2, THEN conjunct2, THEN conjunct1, rule_format, OF h0]
  from a b c show ?thesis by simp
qed

section \<open>ToXML of a string\<close>



section \<open>Normalize on concrete trees\<close>

text \<open>
  Claim C3 fails on the code. The tree of \<open><a><![CDATA[]]><b/></a>\<close> has an empty Text
  child followed by the element \<open>b\<close>. One pass of \<open>normalize\<close> removes \<open>b\<close> and keeps the
  empty Text node, and a second pass ends in a host \<open>TypeError\<close>. In the tree of
  \<open><a>t<b>x<![CDATA[y]]></b></a>\<close> the element \<open>b\<close> follows a Text node and is skipped: its two
  Text children are still there after the pass.
\<close>

theorem normalize_examples:
  "tree_of 5 (storeOf ''<a><![CDATA[]]><b/></a>'') 1
     = Some (elementNode ''a'' [] [textNode '''', elementNode ''b'' [] []]) \<and>
   ASXML_normalize 100 (storeOf ''<a><![CDATA[]]><b/></a>'') 1
     = Inr (normalizedStore ''<a><![CDATA[]]><b/></a>'') \<and>
   tree_of 5 (normalizedStore ''<a><![CDATA[]]><b/></a>'') 1
     = Some (elementNode ''a'' [] [textNode '''']) \<and>
   ASXML_normalize 100 (normalizedStore ''<a><![CDATA[]]><b/></a>'') 1 = Inl JSTypeError \<and>
   tree_of 5 (normalizedStore ''<a>t<b>x<![CDATA[y]]></b></a>'') 1
     = Some (elementNode ''a'' [] [textNode ''t'', elementNode ''b'' [] [textNode ''x'', textNode ''y'']])"
  by code_simp

section \<open>Parents and children on concrete trees\<close>

text \<open>
  Claim C8 fails on the code. In the tree of \<open><p><c/></p>\<close> the node 1 is \<open>p\<close> and the node 2
  is its child \<open>c\<close>. After \<open>q.insert(0, c)\<close> on a new element \<open>q\<close> (the node 3), \<open>c\<close> is a child
  of both \<open>p\<close> and \<open>q\<close>, and its parent is \<open>q\<close>. In the tree of \<open><p k="v"><c/></p>\<close> the node 2 is
  the attribute and the node 3 is \<open>c\<close>; after \<open>q.appendChild\<close> of the attribute (the new
  element \<open>q\<close> being the node 4), the attribute is still an attribute of \<open>p\<close> while its
  parent is \<open>q\<close>, and \<open>c\<close> has been removed from the children of \<open>p\<close>.
\<close>

theorem insert_and_appendChild_examples:
  "children (nodes (storeOf ''<p><c/></p>'') ! 1) = Some [2] \<and>
   parent (nodes (storeOf ''<p><c/></p>'') ! 2) = Some 1 \<and>
   children (nodes (storeAfterInsert ''<p><c/></p>'' 2) ! 1) = Some [2] \<and>
   children (nodes (storeAfterInsert ''<p><c/></p>'' 2) ! 3) = Some [2] \<and>
   parent (nodes (storeAfterInsert ''<p><c/></p>'' 2) ! 2) = Some 3 \<and>
   attributes (nodes (storeOf ''<p k=\"v\"><c/></p>'') ! 1) = Some [2] \<and>
   children (nodes (storeOf ''<p k=\"v\"><c/></p>'') ! 1) = Some [3] \<and>
   attributes (nodes (storeAfterAppend ''<p k=\"v\"><c/></p>'' 2) ! 1) = Some [2] \<and>
   children (nodes (storeAfterAppend ''<p k=\"v\"><c/></p>'' 2) ! 1) = Some [] \<and>
   children (nodes (storeAfterAppend ''<p k=\"v\"><c/></p>'' 2) ! 4) = Some [2] \<and>
   parent (nodes (storeAfterAppend ''<p k=\"v\"><c/></p>'' 2) ! 2) = Some 4"
  by code_simp

section \<open>The errors of the parser\<close>










































section \<open>The copy of a node\<close>

lemma those_map_eq: "those (map f xs) = Some ys \<longleftrightarrow> map f xs = map Some ys"
proof (induction xs arbitrary: ys)
  case Nil
  show ?case by auto
next
  case (Cons x xs)
  show ?case
  proof (cases "f x")
    case None
    then show ?thesis by (cases ys) auto
  next
    case (Some y)
    show ?thesis
    proof (cases "those (map f xs)")
      case None
      with Some Cons.IH show ?thesis by (cases ys) auto
    next
      case s: (Some zs)
      with Some Cons.IH [of zs] show ?thesis by (cases ys) auto
    qed
  qed
qed

lemma those_map_SomeD: "those (map f xs) = Some ys \<Longrightarrow> a \<in> set xs \<Longrightarrow> \<exists>y. f a = Some y"
proof -
  assume "those (map f xs) = Some ys" and a: "a \<in> set xs"
  then have m: "map f xs = map Some ys" by (simp add: those_map_eq)
  from a have "f a \<in> set (map f xs)" by simp
  with m have "f a \<in> set (map Some ys)" by simp
  then show ?thesis by auto
qed

lemma sameButParent_fields:
  "sameButParent m n \<Longrightarrow> kind m = kind n \<and> name m = name n \<and> value m = value n \<and>
     children m = children n \<and> attributes m = attributes n \<and> inScopeNamespaces m = inScopeNamespaces n"
  unfolding sameButParent_def
  by (metis node.select_convs(1,2,3,5,6,7) node.surjective node.update_convs(4))

lemma sameButParent_derived:
  "sameButParent m n \<Longrightarrow> attrs_of m = attrs_of n \<and> kids_of m = kids_of n \<and> scope_of m = scope_of n \<and>
      wellShaped m = wellShaped n \<and> name_of \<sigma> m = name_of \<sigma> n"
  by (drule sameButParent_fields) (simp add: attrs_of_def kids_of_def scope_of_def wellShaped_def name_of_def)

lemma agreeOn_subset: "agreeOn R \<sigma> \<sigma>' \<Longrightarrow> S \<subseteq> R \<Longrightarrow> agreeOn S \<sigma> \<sigma>'"
  by (auto simp: agreeOn_def)

lemma tree_of_agree:
  "agreeOn (set (reach d \<sigma> x)) \<sigma> \<sigma>' \<Longrightarrow> tree_of d \<sigma> x = Some t \<Longrightarrow>
   tree_of d \<sigma>' x = Some t \<and> reach d \<sigma>' x = reach d \<sigma> x"
proof (induction d arbitrary: x t)
  case 0
  then show ?case by simp
next
  case (Suc d)
  let ?n = "nodes \<sigma> ! x" and ?n' = "nodes \<sigma>' ! x"
  from Suc.prems(2) have x: "x < length (nodes \<sigma>)" and ws: "wellShaped ?n"
    by (auto split: if_splits)
  from Suc.prems(1) x have x': "x < length (nodes \<sigma>')" and sp: "sameButParent ?n' ?n"
    and q: "qnames \<sigma>' = qnames \<sigma>"
    by (auto simp: agreeOn_def)
  note f = sameButParent_derived [OF sp]
  have nm: "name_of \<sigma>' ?n' = name_of \<sigma> ?n"
  proof -
    have "name_of \<sigma>' ?n = name_of \<sigma> ?n" by (simp add: name_of_def q split: option.splits)
    with f [of \<sigma>'] show ?thesis by simp
  qed
  from Suc.prems(2) x ws obtain nmv ats cts where
    n1: "name_of \<sigma> ?n = Some nmv"
    and a1: "those (map (tree_of d \<sigma>) (attrs_of ?n)) = Some ats"
    and c1: "those (map (tree_of d \<sigma>) (kids_of ?n)) = Some cts"
    and t: "t = XML (kind ?n) nmv (if kind ?n = Element then '''' else value ?n) (scope_of ?n) ats cts"
    by (auto split: option.splits)
  have sub: "\<And>a. a \<in> set (attrs_of ?n @ kids_of ?n) \<Longrightarrow> set (reach d \<sigma> a) \<subseteq> set (reach (Suc d) \<sigma> x)"
    by auto
  have each: "\<And>a. a \<in> set (attrs_of ?n @ kids_of ?n) \<Longrightarrow>
      tree_of d \<sigma>' a = tree_of d \<sigma> a \<and> reach d \<sigma>' a = reach d \<sigma> a"
  proof -
    fix a assume a: "a \<in> set (attrs_of ?n @ kids_of ?n)"
    from a a1 c1 obtain ta where ta: "tree_of d \<sigma> a = Some ta"
      by (auto dest: those_map_SomeD)
    from Suc.IH [OF agreeOn_subset [OF Suc.prems(1) sub [OF a]] ta] ta
    show "tree_of d \<sigma>' a = tree_of d \<sigma> a \<and> reach d \<sigma>' a = reach d \<sigma> a" by simp
  qed
  have ma: "map (tree_of d \<sigma>') (attrs_of ?n) = map (tree_of d \<sigma>) (attrs_of ?n)"
    and mc: "map (tree_of d \<sigma>') (kids_of ?n) = map (tree_of d \<sigma>) (kids_of ?n)"
    and mr: "map (reach d \<sigma>') (attrs_of ?n @ kids_of ?n) = map (reach d \<sigma>) (attrs_of ?n @ kids_of ?n)"
    using each by (auto intro!: map_cong)
  have e1: "attrs_of ?n' = attrs_of ?n" "kids_of ?n' = kids_of ?n" "scope_of ?n' = scope_of ?n"
    "wellShaped ?n'"
    using f [of \<sigma>] ws by simp_all
  have e2: "kind ?n' = kind ?n" "value ?n' = value ?n"
    using sameButParent_fields [OF sp] by simp_all
  have a1': "those (map (tree_of d \<sigma>') (attrs_of ?n')) = Some ats"
    by (simp only: e1 ma a1)
  have c1': "those (map (tree_of d \<sigma>') (kids_of ?n')) = Some cts"
    by (simp only: e1 mc c1)
  have n1': "name_of \<sigma>' ?n' = Some nmv" by (simp only: nm n1)
  have "tree_of (Suc d) \<sigma>' x = Some t"
    by (simp add: x' e1(3,4) e2 a1' c1' n1' t)
  moreover have "reach (Suc d) \<sigma>' x = reach (Suc d) \<sigma> x"
    by (simp only: reach.simps e1 mr)
  ultimately show ?case by simp
qed

lemma nodes_updNode [simp]: "nodes (updNode \<sigma> r f) = (nodes \<sigma>)[r := f (nodes \<sigma> ! r)]"
  by (simp add: updNode_def)

lemma qnames_updNode [simp]: "qnames (updNode \<sigma> r f) = qnames \<sigma>"
  by (simp add: updNode_def)

lemma sameButParent_refl [simp]: "sameButParent n n"
  by (simp add: sameButParent_def)

lemma sameButParent_parent [simp]: "sameButParent (n\<lparr>parent := p\<rparr>) n"
  by (simp add: sameButParent_def)

lemma tree_of_frame:
  assumes "tree_of d \<sigma> x = Some t"
    and "qnames \<sigma>' = qnames \<sigma>"
    and "\<And>r. r \<in> set (reach d \<sigma> x) \<Longrightarrow> r < length (nodes \<sigma>) \<Longrightarrow>
            r < length (nodes \<sigma>') \<and> sameButParent (nodes \<sigma>' ! r) (nodes \<sigma> ! r)"
  shows "tree_of d \<sigma>' x = Some t" and "reach d \<sigma>' x = reach d \<sigma> x"
proof -
  have "agreeOn (set (reach d \<sigma> x)) \<sigma> \<sigma>'"
    using assms(2,3) by (simp add: agreeOn_def)
  from tree_of_agree [OF this assms(1)]
  show "tree_of d \<sigma>' x = Some t" and "reach d \<sigma>' x = reach d \<sigma> x" by simp_all
qed

lemma tree_of_bound: "tree_of d \<sigma> x = Some t \<Longrightarrow> x < length (nodes \<sigma>)"
  by (cases d) (auto split: if_splits)

lemma those_map_Cons:
  "those (map f (a # rest)) = Some ts \<Longrightarrow>
   \<exists>ta trest. ts = ta # trest \<and> f a = Some ta \<and> those (map f rest) = Some trest"
  by (auto split: option.splits)

lemma those_map_cong:
  "those (map f xs) = Some ts \<Longrightarrow> (\<And>a. a \<in> set xs \<Longrightarrow> g a = f a) \<Longrightarrow> those (map g xs) = Some ts"
proof -
  assume t: "those (map f xs) = Some ts" and e: "\<And>a. a \<in> set xs \<Longrightarrow> g a = f a"
  have m: "map g xs = map f xs" using e by (auto intro!: map_cong)
  show ?thesis unfolding m by (rule t)
qed

lemma copyAll_spec:
  assumes c: "copies d copy"
  shows "those (map (tree_of d \<sigma>) xs) = Some ts \<Longrightarrow> \<forall>t \<in> set ts. regular t \<Longrightarrow>
         clone < length (nodes \<sigma>) \<Longrightarrow>
         \<exists>\<sigma>' xs'. copyAll copy \<sigma> clone xs = Inr (\<sigma>', xs') \<and>
           length (nodes \<sigma>) \<le> length (nodes \<sigma>') \<and>
           (\<forall>r < length (nodes \<sigma>). nodes \<sigma>' ! r = nodes \<sigma> ! r) \<and>
           qnames \<sigma>' = qnames \<sigma> \<and>
           those (map (tree_of d \<sigma>') xs') = Some ts \<and>
           (\<forall>a \<in> set xs'. \<forall>r \<in> set (reach d \<sigma>' a). length (nodes \<sigma>) \<le> r \<and> r < length (nodes \<sigma>'))"
proof (induction xs arbitrary: \<sigma> ts)
  case Nil
  then show ?case by simp
next
  case (Cons a rest)
  let ?L = "length (nodes \<sigma>)"
  from those_map_Cons [OF Cons.prems(1)] obtain ta trest where ts: "ts = ta # trest"
    and ta: "tree_of d \<sigma> a = Some ta" and tr: "those (map (tree_of d \<sigma>) rest) = Some trest"
    by blast
  from Cons.prems(2) ts have rta: "regular ta" and rtr: "\<forall>t \<in> set trest. regular t" by simp_all
  from c ta rta obtain \<sigma>1 where c1: "copy \<sigma> a = Inr (\<sigma>1, ?L)" and cl: "cloned d \<sigma> a ta \<sigma>1"
    unfolding copies_def by blast
  from cl have g1: "?L < length (nodes \<sigma>1)"
    and f1: "\<forall>r < ?L. nodes \<sigma>1 ! r = nodes \<sigma> ! r"
    and q1: "qnames \<sigma>1 = qnames \<sigma>"
    and t1: "tree_of d \<sigma>1 ?L = Some ta"
    and r1: "\<forall>r \<in> set (reach d \<sigma>1 ?L). ?L \<le> r \<and> r < length (nodes \<sigma>1)"
    by (simp_all add: cloned_def)
  define \<sigma>2 where "\<sigma>2 = updNode \<sigma>1 ?L (\<lambda>n. n\<lparr>parent := Some clone\<rparr>)"
  have len2: "length (nodes \<sigma>2) = length (nodes \<sigma>1)" by (simp add: \<sigma>2_def)
  have q2: "qnames \<sigma>2 = qnames \<sigma>" by (simp add: \<sigma>2_def q1)
  have f2: "\<forall>r < ?L. nodes \<sigma>2 ! r = nodes \<sigma> ! r" using f1 by (simp add: \<sigma>2_def)
  have s12: "sameButParent (nodes \<sigma>2 ! r) (nodes \<sigma>1 ! r)" if "r < length (nodes \<sigma>1)" for r
    using that by (cases "r = ?L") (simp_all add: \<sigma>2_def)
  have t2: "tree_of d \<sigma>2 ?L = Some ta" and re2: "reach d \<sigma>2 ?L = reach d \<sigma>1 ?L"
    using tree_of_frame [OF t1, of \<sigma>2] s12 len2 q1 q2 by simp_all
  have tr2: "those (map (tree_of d \<sigma>2) rest) = Some trest"
  proof (rule those_map_cong [OF tr])
    fix b assume b: "b \<in> set rest"
    from those_map_SomeD [OF tr b] obtain tb where tb: "tree_of d \<sigma> b = Some tb" by blast
    have "tree_of d \<sigma>2 b = Some tb"
    proof (rule tree_of_frame(1) [OF tb])
      show "qnames \<sigma>2 = qnames \<sigma>" by (rule q2)
    next
      fix r assume "r \<in> set (reach d \<sigma> b)" and r: "r < ?L"
      with f2 g1 len2 show "r < length (nodes \<sigma>2) \<and> sameButParent (nodes \<sigma>2 ! r) (nodes \<sigma> ! r)"
        by simp
    qed
    with tb show "tree_of d \<sigma>2 b = tree_of d \<sigma> b" by simp
  qed
  have cl2: "clone < length (nodes \<sigma>2)" using Cons.prems(3) g1 len2 by simp
  from Cons.IH [OF tr2 rtr cl2] obtain \<sigma>' rest' where
    ca: "copyAll copy \<sigma>2 clone rest = Inr (\<sigma>', rest')"
    and g3: "length (nodes \<sigma>2) \<le> length (nodes \<sigma>')"
    and f3: "\<forall>r < length (nodes \<sigma>2). nodes \<sigma>' ! r = nodes \<sigma>2 ! r"
    and q3: "qnames \<sigma>' = qnames \<sigma>2"
    and t3: "those (map (tree_of d \<sigma>') rest') = Some trest"
    and r3: "\<forall>a \<in> set rest'. \<forall>r \<in> set (reach d \<sigma>' a). length (nodes \<sigma>2) \<le> r \<and> r < length (nodes \<sigma>')"
    by blast
  have res: "copyAll copy \<sigma> clone (a # rest) = Inr (\<sigma>', ?L # rest')"
    using c1 ca by (simp add: \<sigma>2_def)
  have tL: "tree_of d \<sigma>' ?L = Some ta" and reL: "reach d \<sigma>' ?L = reach d \<sigma>2 ?L"
  proof -
    have fr: "\<And>r. r \<in> set (reach d \<sigma>2 ?L) \<Longrightarrow> r < length (nodes \<sigma>2) \<Longrightarrow>
            r < length (nodes \<sigma>') \<and> sameButParent (nodes \<sigma>' ! r) (nodes \<sigma>2 ! r)"
      using f3 g3 by simp
    from tree_of_frame [OF t2 q3 fr]
    show "tree_of d \<sigma>' ?L = Some ta" and "reach d \<sigma>' ?L = reach d \<sigma>2 ?L" by simp_all
  qed
  have "length (nodes \<sigma>) \<le> length (nodes \<sigma>')" using g1 len2 g3 by simp
  moreover have "\<forall>r < ?L. nodes \<sigma>' ! r = nodes \<sigma> ! r" using f2 f3 g1 len2 by simp
  moreover have "qnames \<sigma>' = qnames \<sigma>" using q3 q2 by simp
  moreover have "those (map (tree_of d \<sigma>') (?L # rest')) = Some ts"
    using tL t3 ts by simp
  moreover have "\<forall>a \<in> set (?L # rest'). \<forall>r \<in> set (reach d \<sigma>' a). ?L \<le> r \<and> r < length (nodes \<sigma>')"
  proof -
    have "\<forall>r \<in> set (reach d \<sigma>' ?L). ?L \<le> r \<and> r < length (nodes \<sigma>')"
    proof
      fix r assume "r \<in> set (reach d \<sigma>' ?L)"
      then have "r \<in> set (reach d \<sigma>1 ?L)" by (simp only: reL re2)
      with r1 have "?L \<le> r \<and> r < length (nodes \<sigma>1)" by blast
      with g3 len2 show "?L \<le> r \<and> r < length (nodes \<sigma>')" by simp
    qed
    moreover have "\<forall>a \<in> set rest'. \<forall>r \<in> set (reach d \<sigma>' a). ?L \<le> r \<and> r < length (nodes \<sigma>')"
    proof (intro ballI)
      fix a r assume "a \<in> set rest'" and "r \<in> set (reach d \<sigma>' a)"
      with r3 have "length (nodes \<sigma>2) \<le> r \<and> r < length (nodes \<sigma>')" by blast
      with g1 len2 show "?L \<le> r \<and> r < length (nodes \<sigma>')" by simp
    qed
    ultimately show ?thesis by simp
  qed
  ultimately show ?case using res by blast
qed


lemma sequenceE_map_fix: "(\<And>x. x \<in> set xs \<Longrightarrow> f x = Inr x) \<Longrightarrow> sequenceE (map f xs) = Inr xs"
  by (induction xs) simp_all

lemma name_of_cong: "qnames \<sigma>' = qnames \<sigma> \<Longrightarrow> name m = name n \<Longrightarrow> name_of \<sigma>' m = name_of \<sigma> n"
  by (simp add: name_of_def split: option.splits)

lemma deepCopy_leaf:
  assumes "x < length (nodes \<sigma>)" and "kind (nodes \<sigma> ! x) \<noteq> Element"
    and "kind (nodes \<sigma> ! x) \<noteq> Unknown"
  shows "deepCopy (Suc d) \<sigma> x =
           Inr (\<sigma>\<lparr>nodes := nodes \<sigma> @ [\<lparr>kind = kind (nodes \<sigma> ! x), name = name (nodes \<sigma> ! x),
                    value = value (nodes \<sigma> ! x), parent = None, children = None,
                    attributes = None, inScopeNamespaces = None\<rparr>]\<rparr>, length (nodes \<sigma>))"
proof -
  from assms(2,3) have k: "kind (nodes \<sigma> ! x) = Comment \<or> kind (nodes \<sigma> ! x) = ProcessingInstruction \<or>
      kind (nodes \<sigma> ! x) = Attribute \<or> kind (nodes \<sigma> ! x) = Text"
    by (cases "kind (nodes \<sigma> ! x)") simp_all
  show ?thesis
    using assms(1,2) k by (auto simp: new_ASXML_def Let_def updNode_def)
qed

lemma deepCopy_Element:
  assumes "x < length (nodes \<sigma>)" and "kind (nodes \<sigma> ! x) = Element"
    and "inScopeNamespaces (nodes \<sigma> ! x) = Some ins"
    and "attributes (nodes \<sigma> ! x) = Some as" and "children (nodes \<sigma> ! x) = Some cs"
    and "sequenceE (map (\<lambda>ns. new_ASNamespace (prefix ns) (uri ns)) ins) = Inr ins'"
    and "\<sigma>2 = \<sigma>\<lparr>nodes := nodes \<sigma> @ [\<lparr>kind = Element, name = name (nodes \<sigma> ! x), value = '''',
                     parent = None, children = None, attributes = None,
                     inScopeNamespaces = Some ins'\<rparr>]\<rparr>"
    and "copyAll (deepCopy d) \<sigma>2 (length (nodes \<sigma>)) as = Inr (\<sigma>3, as')"
    and "copyAll (deepCopy d) (updNode \<sigma>3 (length (nodes \<sigma>)) (\<lambda>n. n\<lparr>attributes := Some as'\<rparr>))
           (length (nodes \<sigma>)) cs = Inr (\<sigma>5, cs')"
  shows "deepCopy (Suc d) \<sigma> x =
           Inr (updNode \<sigma>5 (length (nodes \<sigma>)) (\<lambda>n. n\<lparr>children := Some cs'\<rparr>), length (nodes \<sigma>))"
proof -
  have s2: "updNode (updNode (\<sigma>\<lparr>nodes := nodes \<sigma> @ [\<lparr>kind = Text, name = None, value = '''',
                parent = None, children = None, attributes = None, inScopeNamespaces = None\<rparr>]\<rparr>)
              (length (nodes \<sigma>)) (\<lambda>n. n\<lparr>kind := Element, name := name (nodes \<sigma> ! x)\<rparr>))
            (length (nodes \<sigma>)) (\<lambda>n. n\<lparr>inScopeNamespaces := Some ins'\<rparr>) = \<sigma>2"
    by (simp add: updNode_def assms(7))
  show ?thesis
    using assms(1-6,8,9) by (simp add: new_ASXML_def Let_def s2)
qed

lemma deepCopy_copies: "copies d (deepCopy d)"
proof (induction d)
  case 0
  show ?case by (simp add: copies_def)
next
  case (Suc d)
  show ?case unfolding copies_def
  proof (intro allI impI)
    fix \<sigma> x t
    assume a: "tree_of (Suc d) \<sigma> x = Some t \<and> regular t"
    let ?L = "length (nodes \<sigma>)" and ?n = "nodes \<sigma> ! x"
    from a have x: "x < ?L" and ws: "wellShaped ?n"
      by (auto split: if_splits)
    from a x ws obtain nmv ats cts where
      n1: "name_of \<sigma> ?n = Some nmv"
      and a1: "those (map (tree_of d \<sigma>) (attrs_of ?n)) = Some ats"
      and c1: "those (map (tree_of d \<sigma>) (kids_of ?n)) = Some cts"
      and t: "t = XML (kind ?n) nmv (if kind ?n = Element then '''' else value ?n) (scope_of ?n) ats cts"
      by (auto split: option.splits)
    from a t have reg: "\<forall>ns \<in> set (scope_of ?n). new_ASNamespace (prefix ns) (uri ns) = Inr ns"
      and rega: "\<forall>a \<in> set ats. regular a" and regc: "\<forall>c \<in> set cts. regular c"
      by simp_all
    show "\<exists>\<sigma>'. deepCopy (Suc d) \<sigma> x = Inr (\<sigma>', ?L) \<and> cloned (Suc d) \<sigma> x t \<sigma>'"
    proof (cases "kind ?n = Element")
      case False
      from ws False have ku: "kind ?n \<noteq> Unknown" and arr: "inScopeNamespaces ?n = None"
        "attributes ?n = None" "children ?n = None"
        by (simp_all add: wellShaped_def)
      define m where "m = \<lparr>kind = kind ?n, name = name ?n, value = value ?n, parent = None,
        children = None, attributes = None, inScopeNamespaces = None\<rparr>"
      define \<sigma>' where "\<sigma>' = \<sigma>\<lparr>nodes := nodes \<sigma> @ [m]\<rparr>"
      have dc: "deepCopy (Suc d) \<sigma> x = Inr (\<sigma>', ?L)"
        unfolding \<sigma>'_def m_def by (rule deepCopy_leaf [OF x False ku])
      have nL: "nodes \<sigma>' ! ?L = m" by (simp add: \<sigma>'_def)
      have q: "qnames \<sigma>' = qnames \<sigma>" by (simp add: \<sigma>'_def)
      have nm: "name_of \<sigma>' m = Some nmv"
        using n1 name_of_cong [of \<sigma>' \<sigma> m ?n] by (simp add: m_def q)
      have em: "attrs_of m = []" "kids_of m = []" "scope_of m = []" "wellShaped m"
        using False ku by (simp_all add: attrs_of_def kids_of_def scope_of_def wellShaped_def m_def)
      have en: "attrs_of ?n = []" "kids_of ?n = []" "scope_of ?n = []"
        using arr by (simp_all add: attrs_of_def kids_of_def scope_of_def)
      from a1 c1 en have e: "ats = []" "cts = []" by simp_all
      have lenp: "?L < length (nodes \<sigma>')" by (simp add: \<sigma>'_def)
      have km: "kind m = kind ?n" "value m = value ?n" "parent m = None" "name m = name ?n"
        by (simp_all add: m_def)
      have tr: "tree_of (Suc d) \<sigma>' ?L = Some t"
        using False by (simp add: lenp nL nm em t e en km)
      have re: "reach (Suc d) \<sigma>' ?L = [?L]" by (simp add: nL em)
      have fr: "\<forall>r < ?L. nodes \<sigma>' ! r = nodes \<sigma> ! r" by (simp add: \<sigma>'_def nth_append)
      have "cloned (Suc d) \<sigma> x t \<sigma>'"
        unfolding cloned_def
        using tr re lenp fr q by (simp add: nL km)
      with dc show ?thesis by blast
    next
      case True
      from ws True obtain ins as cs where arr: "inScopeNamespaces ?n = Some ins"
        "attributes ?n = Some as" "children ?n = Some cs"
        by (auto simp: wellShaped_def)
      then have en: "attrs_of ?n = as" "kids_of ?n = cs" "scope_of ?n = ins"
        by (simp_all add: attrs_of_def kids_of_def scope_of_def)
      have seq: "sequenceE (map (\<lambda>ns. new_ASNamespace (prefix ns) (uri ns)) ins) = Inr ins"
        using reg en by (intro sequenceE_map_fix) simp
      define m2 where "m2 = \<lparr>kind = Element, name = name ?n, value = '''', parent = None,
        children = None, attributes = None, inScopeNamespaces = Some ins\<rparr>"
      define \<sigma>2 where "\<sigma>2 = \<sigma>\<lparr>nodes := nodes \<sigma> @ [m2]\<rparr>"
      have len2: "length (nodes \<sigma>2) = Suc ?L" and q2: "qnames \<sigma>2 = qnames \<sigma>"
        and f2: "\<forall>r < ?L. nodes \<sigma>2 ! r = nodes \<sigma> ! r" and nL2: "nodes \<sigma>2 ! ?L = m2"
        by (simp_all add: \<sigma>2_def nth_append)
      have frame_from: "those (map (tree_of d \<sigma>'') ys) = Some ts"
        if ys: "those (map (tree_of d \<sigma>) ys) = Some ts" and q: "qnames \<sigma>'' = qnames \<sigma>"
          and l: "?L \<le> length (nodes \<sigma>'')" and f: "\<forall>r < ?L. nodes \<sigma>'' ! r = nodes \<sigma> ! r"
        for \<sigma>'' ys ts
      proof (rule those_map_cong [OF ys])
        fix b assume b: "b \<in> set ys"
        from those_map_SomeD [OF ys b] obtain tb where tb: "tree_of d \<sigma> b = Some tb" by blast
        have "tree_of d \<sigma>'' b = Some tb"
        proof (rule tree_of_frame(1) [OF tb q])
          fix r assume "r \<in> set (reach d \<sigma> b)" and r: "r < ?L"
          with f l show "r < length (nodes \<sigma>'') \<and> sameButParent (nodes \<sigma>'' ! r) (nodes \<sigma> ! r)"
            by simp
        qed
        with tb show "tree_of d \<sigma>'' b = tree_of d \<sigma> b" by simp
      qed
      have a2: "those (map (tree_of d \<sigma>2) as) = Some ats"
        by (rule frame_from) (use a1 en q2 len2 f2 in simp_all)
      have cl2: "?L < length (nodes \<sigma>2)" by (simp add: len2)
      from copyAll_spec [OF Suc.IH a2 rega cl2] obtain \<sigma>3 as' where
        ca1: "copyAll (deepCopy d) \<sigma>2 ?L as = Inr (\<sigma>3, as')"
        and g3: "length (nodes \<sigma>2) \<le> length (nodes \<sigma>3)"
        and f3: "\<forall>r < length (nodes \<sigma>2). nodes \<sigma>3 ! r = nodes \<sigma>2 ! r"
        and q3: "qnames \<sigma>3 = qnames \<sigma>2"
        and t3: "those (map (tree_of d \<sigma>3) as') = Some ats"
        and r3: "\<forall>a \<in> set as'. \<forall>r \<in> set (reach d \<sigma>3 a). length (nodes \<sigma>2) \<le> r \<and> r < length (nodes \<sigma>3)"
        by blast
      define \<sigma>4 where "\<sigma>4 = updNode \<sigma>3 ?L (\<lambda>n. n\<lparr>attributes := Some as'\<rparr>)"
      have len4: "length (nodes \<sigma>4) = length (nodes \<sigma>3)" and q4: "qnames \<sigma>4 = qnames \<sigma>"
        by (simp_all add: \<sigma>4_def q3 q2)
      have f4: "\<forall>r < ?L. nodes \<sigma>4 ! r = nodes \<sigma> ! r"
        using f3 f2 len2 by (simp add: \<sigma>4_def)
      have nL4: "nodes \<sigma>4 ! ?L = m2\<lparr>attributes := Some as'\<rparr>"
        using f3 nL2 len2 g3 by (simp add: \<sigma>4_def)
      have o4: "\<And>r. r \<noteq> ?L \<Longrightarrow> nodes \<sigma>4 ! r = nodes \<sigma>3 ! r" by (simp add: \<sigma>4_def)
      have c4: "those (map (tree_of d \<sigma>4) cs) = Some cts"
        by (rule frame_from) (use c1 en q4 len4 g3 len2 f4 in simp_all)
      have cl4: "?L < length (nodes \<sigma>4)" using len4 g3 len2 by simp
      from copyAll_spec [OF Suc.IH c4 regc cl4] obtain \<sigma>5 cs' where
        ca2: "copyAll (deepCopy d) \<sigma>4 ?L cs = Inr (\<sigma>5, cs')"
        and g5: "length (nodes \<sigma>4) \<le> length (nodes \<sigma>5)"
        and f5: "\<forall>r < length (nodes \<sigma>4). nodes \<sigma>5 ! r = nodes \<sigma>4 ! r"
        and q5: "qnames \<sigma>5 = qnames \<sigma>4"
        and t5: "those (map (tree_of d \<sigma>5) cs') = Some cts"
        and r5: "\<forall>a \<in> set cs'. \<forall>r \<in> set (reach d \<sigma>5 a). length (nodes \<sigma>4) \<le> r \<and> r < length (nodes \<sigma>5)"
        by blast
      define \<sigma>' where "\<sigma>' = updNode \<sigma>5 ?L (\<lambda>n. n\<lparr>children := Some cs'\<rparr>)"
      define m' where "m' = m2\<lparr>attributes := Some as', children := Some cs'\<rparr>"
      have len': "length (nodes \<sigma>') = length (nodes \<sigma>5)" and q': "qnames \<sigma>' = qnames \<sigma>"
        by (simp_all add: \<sigma>'_def q5 q4)
      have L5: "?L < length (nodes \<sigma>5)" using cl4 g5 by simp
      have nL': "nodes \<sigma>' ! ?L = m'"
        using f5 nL4 cl4 L5 by (simp add: \<sigma>'_def m'_def)
      have o': "\<And>r. r \<noteq> ?L \<Longrightarrow> nodes \<sigma>' ! r = nodes \<sigma>5 ! r" by (simp add: \<sigma>'_def)
      have f': "\<forall>r < ?L. nodes \<sigma>' ! r = nodes \<sigma> ! r"
        using o' f5 f4 cl4 by simp
      have dc: "deepCopy (Suc d) \<sigma> x = Inr (\<sigma>', ?L)"
        unfolding \<sigma>'_def
        by (rule deepCopy_Element [OF x True arr seq _ ca1 ca2 [unfolded \<sigma>4_def]])
           (simp add: \<sigma>2_def m2_def)
      have attr_same: "tree_of d \<sigma>' a = tree_of d \<sigma>3 a \<and> reach d \<sigma>' a = reach d \<sigma>3 a"
        if a: "a \<in> set as'" for a
      proof -
        from those_map_SomeD [OF t3 a] obtain ta where ta: "tree_of d \<sigma>3 a = Some ta" by blast
        have fr: "r < length (nodes \<sigma>') \<and> sameButParent (nodes \<sigma>' ! r) (nodes \<sigma>3 ! r)"
          if "r \<in> set (reach d \<sigma>3 a)" and "r < length (nodes \<sigma>3)" for r
        proof -
          from r3 a that(1) have b: "length (nodes \<sigma>2) \<le> r" by blast
          with len2 have ne: "r \<noteq> ?L" by simp
          from that(2) len4 have "r < length (nodes \<sigma>4)" by simp
          with f5 have "nodes \<sigma>5 ! r = nodes \<sigma>4 ! r" by simp
          with o' [OF ne] o4 [OF ne] have "nodes \<sigma>' ! r = nodes \<sigma>3 ! r" by simp
          moreover have "r < length (nodes \<sigma>')" using that(2) len' g5 len4 by simp
          ultimately show ?thesis by simp
        qed
        have q: "qnames \<sigma>' = qnames \<sigma>3" by (simp add: q' q3 q2)
        from tree_of_frame [OF ta q fr] ta show ?thesis by simp
      qed
      have kid_same: "tree_of d \<sigma>' c = tree_of d \<sigma>5 c \<and> reach d \<sigma>' c = reach d \<sigma>5 c"
        if c: "c \<in> set cs'" for c
      proof -
        from those_map_SomeD [OF t5 c] obtain tc where tc: "tree_of d \<sigma>5 c = Some tc" by blast
        have fr: "r < length (nodes \<sigma>') \<and> sameButParent (nodes \<sigma>' ! r) (nodes \<sigma>5 ! r)"
          if "r \<in> set (reach d \<sigma>5 c)" and "r < length (nodes \<sigma>5)" for r
        proof -
          from r5 c that(1) have b: "length (nodes \<sigma>4) \<le> r" by blast
          with cl4 have ne: "r \<noteq> ?L" by simp
          from o' [OF ne] have "nodes \<sigma>' ! r = nodes \<sigma>5 ! r" .
          with that(2) len' show ?thesis by simp
        qed
        have q: "qnames \<sigma>' = qnames \<sigma>5" by (simp add: q' q5 q4)
        from tree_of_frame [OF tc q fr] tc show ?thesis by simp
      qed
      have ta': "those (map (tree_of d \<sigma>') as') = Some ats"
        using attr_same by (intro those_map_cong [OF t3]) simp
      have tc': "those (map (tree_of d \<sigma>') cs') = Some cts"
        using kid_same by (intro those_map_cong [OF t5]) simp
      have em: "attrs_of m' = as'" "kids_of m' = cs'" "scope_of m' = ins" "wellShaped m'"
        "kind m' = Element" "name m' = name ?n" "parent m' = None"
        by (simp_all add: attrs_of_def kids_of_def scope_of_def wellShaped_def m'_def m2_def)
      have nm: "name_of \<sigma>' m' = Some nmv"
        using n1 name_of_cong [of \<sigma>' \<sigma> m' ?n] by (simp add: em q')
      have tr: "tree_of (Suc d) \<sigma>' ?L = Some t"
        using L5 True by (simp add: len' nL' em nm ta' tc' t en)
      have re: "\<forall>r \<in> set (reach (Suc d) \<sigma>' ?L). ?L \<le> r \<and> r < length (nodes \<sigma>')"
      proof
        fix r assume "r \<in> set (reach (Suc d) \<sigma>' ?L)"
        then consider "r = ?L" | a where "a \<in> set as'" "r \<in> set (reach d \<sigma>' a)"
          | c where "c \<in> set cs'" "r \<in> set (reach d \<sigma>' c)"
          by (auto simp: nL' em)
        then show "?L \<le> r \<and> r < length (nodes \<sigma>')"
        proof cases
          case 1
          with L5 len' show ?thesis by simp
        next
          case 2
          with attr_same have "r \<in> set (reach d \<sigma>3 a)" by simp
          with r3 2(1) have "length (nodes \<sigma>2) \<le> r \<and> r < length (nodes \<sigma>3)" by blast
          with len2 len4 g5 len' show ?thesis by simp
        next
          case 3
          with kid_same have "r \<in> set (reach d \<sigma>5 c)" by simp
          with r5 3(1) have "length (nodes \<sigma>4) \<le> r \<and> r < length (nodes \<sigma>5)" by blast
          with cl4 len' show ?thesis by simp
        qed
      qed
      have "cloned (Suc d) \<sigma> x t \<sigma>'"
        unfolding cloned_def
        using L5 f' q' tr re by (simp add: len' nL' em)
      with dc show ?thesis by blast
    qed
  qed
qed


lemma attributeFound_member:
  "a \<in> set as \<Longrightarrow> \<forall>b \<in> set as. xname b \<noteq> None \<Longrightarrow> attributeFound a as = Inr True"
  by (induction as) (auto simp: ASQName_equals_def split: option.splits)

lemma attributesFound_subset:
  "set xs \<subseteq> set as \<Longrightarrow> \<forall>b \<in> set as. xname b \<noteq> None \<Longrightarrow> attributesFound xs as = Inr True"
  by (induction xs) (simp_all add: attributeFound_member)

lemma equalsChildren_refl:
  "(\<And>c. c \<in> set cs \<Longrightarrow> equals st c c = Inr True) \<Longrightarrow> equalsChildren st cs cs = Inr True"
  by (induction cs) simp_all

lemma equals_refl: "regular t \<Longrightarrow> equals st t t = Inr True \<and> deepEquals st t t = Inr True"
proof (induction t)
  case (XML k n v ins as cs)
  let ?t = "XML k n v ins as cs"
  from XML.prems have na: "\<forall>b \<in> set as. xname b \<noteq> None" and rc: "\<forall>c \<in> set cs. regular c"
    by simp_all
  have af: "attributesFound as as = Inr True"
    using na by (intro attributesFound_subset) simp_all
  have ec: "equalsChildren st cs cs = Inr True"
    using XML.IH(2) rc by (intro equalsChildren_refl) simp
  have de: "deepEquals st ?t ?t = Inr True"
    by (cases n) (simp_all add: af ec ASQName_equals_def)
  have "equals st ?t ?t = Inr True"
  proof (cases "k = Text \<or> k = Attribute")
    case True
    then have "hasSimpleContent ?t" and "\<not> hasComplexContent ?t"
      by (auto simp: hasSimpleContent_def hasComplexContent_def)
    with True show ?thesis by (simp add: ASXML_toString_def)
  next
    case False
    with de show ?thesis by simp
  qed
  with de show ?case by simp
qed

lemma reach_bound:
  "tree_of d \<sigma> x = Some t \<Longrightarrow> \<forall>r \<in> set (reach d \<sigma> x). r < length (nodes \<sigma>)"
proof (induction d arbitrary: x t)
  case 0
  then show ?case by simp
next
  case (Suc d)
  let ?n = "nodes \<sigma> ! x"
  from Suc.prems have x: "x < length (nodes \<sigma>)" by (auto split: if_splits)
  from Suc.prems obtain ats cts where
    a1: "those (map (tree_of d \<sigma>) (attrs_of ?n)) = Some ats"
    and c1: "those (map (tree_of d \<sigma>) (kids_of ?n)) = Some cts"
    by (auto split: if_splits option.splits)
  show ?case
  proof
    fix r assume "r \<in> set (reach (Suc d) \<sigma> x)"
    then consider "r = x" | a where "a \<in> set (attrs_of ?n)" "r \<in> set (reach d \<sigma> a)"
      | c where "c \<in> set (kids_of ?n)" "r \<in> set (reach d \<sigma> c)"
      by auto
    then show "r < length (nodes \<sigma>)"
    proof cases
      case 1
      with x show ?thesis by simp
    next
      case 2
      from those_map_SomeD [OF a1 2(1)] obtain ta where "tree_of d \<sigma> a = Some ta" by blast
      from Suc.IH [OF this] 2(2) show ?thesis by blast
    next
      case 3
      from those_map_SomeD [OF c1 3(1)] obtain tc where "tree_of d \<sigma> c = Some tc" by blast
      from Suc.IH [OF this] 3(2) show ?thesis by blast
    qed
  qed
qed

text \<open>
  The claim C2 as it is stated fails for the name. The clone of the element of \<open><a/>\<close>
  (the node 1) refers to the very name object of the original, the name 1; when the uri
  of the clone's name is set with \<open>setUri\<close>, the original no longer denotes the tree it
  denoted.
\<close>

theorem deepCopy_shares_name_counterexample:
  "name (nodes (storeAfterCopy ''<a/>'' 1) ! copyOf ''<a/>'' 1) = Some 1 \<and>
   name (nodes (storeAfterCopy ''<a/>'' 1) ! 1) = Some 1 \<and>
   tree_of 2 (storeAfterCopy ''<a/>'' 1) 1 = Some (elementNode ''a'' [] []) \<and>
   tree_of 2 (setUri (storeAfterCopy ''<a/>'' 1) 1 ''u'') 1 \<noteq> Some (elementNode ''a'' [] [])"
  by code_simp

text \<open>
  Claim C2, amended. For every node \<open>x\<close> that denotes a regular tree, \<open>deepCopy(x)\<close> returns
  a new node that is \<open>_deepEquals\<close> to \<open>x\<close> and has no parent. No node of the store from
  before the copy is changed, every node reached from the clone is a new one, and
  whatever is done to any node of the clone, \<open>x\<close> denotes the same tree as before: a
  change of the copy's value, attributes, children or in-scope namespaces cannot change
  \<open>x\<close>. The name object alone is not cloned: the clone refers to the name object of \<open>x\<close>.
\<close>

theorem deepCopy_clone:
  assumes "tree_of d \<sigma> x = Some t" and "regular t"
  shows "\<exists>\<sigma>'. deepCopy d \<sigma> x = Inr (\<sigma>', length (nodes \<sigma>)) \<and>
           deepEqualsIn d st \<sigma>' x (length (nodes \<sigma>)) = Inr True \<and>
           parent (nodes \<sigma>' ! length (nodes \<sigma>)) = None \<and>
           (\<forall>r < length (nodes \<sigma>). nodes \<sigma>' ! r = nodes \<sigma> ! r) \<and>
           (\<forall>r \<in> set (reach d \<sigma>' (length (nodes \<sigma>))).
               length (nodes \<sigma>) \<le> r \<and> r < length (nodes \<sigma>') \<and>
               (\<forall>f. tree_of d (updNode \<sigma>' r f) x = Some t)) \<and>
           qnames \<sigma>' = qnames \<sigma> \<and>
           name (nodes \<sigma>' ! length (nodes \<sigma>)) = name (nodes \<sigma> ! x)"
proof -
  let ?L = "length (nodes \<sigma>)"
  from deepCopy_copies [of d] assms obtain \<sigma>' where
    dc: "deepCopy d \<sigma> x = Inr (\<sigma>', ?L)" and cl: "cloned d \<sigma> x t \<sigma>'"
    unfolding copies_def by blast
  from cl have g: "?L < length (nodes \<sigma>')"
    and f: "\<forall>r < ?L. nodes \<sigma>' ! r = nodes \<sigma> ! r"
    and q: "qnames \<sigma>' = qnames \<sigma>"
    and tc: "tree_of d \<sigma>' ?L = Some t"
    and p: "parent (nodes \<sigma>' ! ?L) = None"
    and nm: "name (nodes \<sigma>' ! ?L) = name (nodes \<sigma> ! x)"
    and re: "\<forall>r \<in> set (reach d \<sigma>' ?L). ?L \<le> r \<and> r < length (nodes \<sigma>')"
    by (simp_all add: cloned_def)
  note rb = reach_bound [OF assms(1)]
  have tx: "tree_of d \<sigma>' x = Some t"
  proof (rule tree_of_frame(1) [OF assms(1) q])
    fix r assume "r \<in> set (reach d \<sigma> x)" and "r < ?L"
    with f g show "r < length (nodes \<sigma>') \<and> sameButParent (nodes \<sigma>' ! r) (nodes \<sigma> ! r)" by simp
  qed
  have rx: "reach d \<sigma>' x = reach d \<sigma> x"
  proof (rule tree_of_frame(2) [OF assms(1) q])
    fix r assume "r \<in> set (reach d \<sigma> x)" and "r < ?L"
    with f g show "r < length (nodes \<sigma>') \<and> sameButParent (nodes \<sigma>' ! r) (nodes \<sigma> ! r)" by simp
  qed
  have de: "deepEqualsIn d st \<sigma>' x ?L = Inr True"
    using equals_refl [OF assms(2), of st] by (simp add: deepEqualsIn_def tx tc)
  have mut: "tree_of d (updNode \<sigma>' r f) x = Some t" if r: "r \<in> set (reach d \<sigma>' ?L)" for r f
  proof (rule tree_of_frame(1) [OF tx])
    show "qnames (updNode \<sigma>' r f) = qnames \<sigma>'" by simp
  next
    fix s assume s: "s \<in> set (reach d \<sigma>' x)" and "s < length (nodes \<sigma>')"
    from s rx rb have "s < ?L" by simp
    moreover from re r have "?L \<le> r" by blast
    ultimately have "s \<noteq> r" by simp
    with \<open>s < length (nodes \<sigma>')\<close>
    show "s < length (nodes (updNode \<sigma>' r f)) \<and>
          sameButParent (nodes (updNode \<sigma>' r f) ! s) (nodes \<sigma>' ! s)" by simp
  qed
  from dc de p f re mut q nm show ?thesis by blast
qed

theorem deepCopy_clone_witness:
  "\<exists>\<sigma>'. deepCopy 3 (storeOf ''<a k=\"v\"><b>t</b></a>'') 1
            = Inr (\<sigma>', length (nodes (storeOf ''<a k=\"v\"><b>t</b></a>''))) \<and>
         deepEqualsIn 3 initialSettings \<sigma>' 1 (length (nodes (storeOf ''<a k=\"v\"><b>t</b></a>''))) = Inr True \<and>
         parent (nodes \<sigma>' ! length (nodes (storeOf ''<a k=\"v\"><b>t</b></a>''))) = None \<and>
         (\<forall>r < length (nodes (storeOf ''<a k=\"v\"><b>t</b></a>'')).
            nodes \<sigma>' ! r = nodes (storeOf ''<a k=\"v\"><b>t</b></a>'') ! r) \<and>
         (\<forall>r \<in> set (reach 3 \<sigma>' (length (nodes (storeOf ''<a k=\"v\"><b>t</b></a>'')))).
            length (nodes (storeOf ''<a k=\"v\"><b>t</b></a>'')) \<le> r \<and> r < length (nodes \<sigma>') \<and>
            (\<forall>f. tree_of 3 (updNode \<sigma>' r f) 1
                   = Some (elementNode ''a'' [XML Attribute (Some (unqualified ''k'' ATTR_NAME)) ''v'' [] [] []]
                            [elementNode ''b'' [] [textNode ''t'']]))) \<and>
         qnames \<sigma>' = qnames (storeOf ''<a k=\"v\"><b>t</b></a>'') \<and>
         name (nodes \<sigma>' ! length (nodes (storeOf ''<a k=\"v\"><b>t</b></a>'')))
           = name (nodes (storeOf ''<a k=\"v\"><b>t</b></a>'') ! 1)"
proof -
  have h1: "tree_of 3 (storeOf ''<a k=\"v\"><b>t</b></a>'') 1
      = Some (elementNode ''a'' [XML Attribute (Some (unqualified ''k'' ATTR_NAME)) ''v'' [] [] []]
                [elementNode ''b'' [] [textNode ''t'']])"
    by code_simp
  have h2: "regular (elementNode ''a'' [XML Attribute (Some (unqualified ''k'' ATTR_NAME)) ''v'' [] [] []]
                [elementNode ''b'' [] [textNode ''t'']])"
    by (simp add: elementNode_def textNode_def)
  show ?thesis by (rule deepCopy_clone [OF h1 h2])
qed


end
